theory Spec2Isabelle
  imports Complex_Main "HOL-Library.AList" "HOL-Library.Char_ord" "HOL-Library.List_Lexorder"
begin

section \<open>Values of the host language\<close>

text \<open>
  The crawler is JavaScript. Strings are lists of code units, ordered code unit by code
  unit (the order the default \<^verbatim>\<open>Array.prototype.sort\<close> uses on strings); a \<open>char\<close>
  holds the code units below 256, which covers the weights, styles and selectors. The two
  exceptions the modelled code can raise are the string thrown by \<^verbatim>\<open>_checkBusy\<close> and the
  \<^verbatim>\<open>TypeError\<close> of reading a property of \<^verbatim>\<open>undefined\<close> or calling a non-function.
\<close>

datatype error = Busy | TypeError

text \<open>
  A number as an option holds it after numeric coercion (\<^verbatim>\<open>x*1\<close>, \<^verbatim>\<open>x/1000\<close>):
  \<^verbatim>\<open>NaN\<close> for what is not numeric, the two infinities, or a finite value.
\<close>

datatype jsnum = JNaN | JNum rat | JPosInf | JNegInf

fun js_lt :: "jsnum \<Rightarrow> jsnum \<Rightarrow> bool" where
  "js_lt (JNum a) (JNum b) = (a < b)"
| "js_lt (JNum a) JPosInf = True"
| "js_lt JNegInf (JNum b) = True"
| "js_lt JNegInf JPosInf = True"
| "js_lt _ _ = False"

fun js_div :: "jsnum \<Rightarrow> rat \<Rightarrow> jsnum" where
  "js_div (JNum a) d = JNum (a / d)"
| "js_div x d = x"

fun js_falsy :: "jsnum \<Rightarrow> bool" where
  "js_falsy JNaN = True"
| "js_falsy (JNum a) = (a = 0)"
| "js_falsy _ = False"

section \<open>The font-usage map and the source handler\<close>

text \<open>
  The usage map is a plain object created by \<^verbatim>\<open>{}\<close>: its own keys in insertion order,
  each holding an array of variant tokens. The \<^verbatim>\<open>in\<close> operator also finds the properties
  inherited from \<^verbatim>\<open>Object.prototype\<close>, none of which is an array.
\<close>

type_synonym usage = "(string \<times> string list) list"

record css =
  fontFamily :: string
  fontWeight :: string
  fontStyle :: string

definition object_prototype_keys :: "string list" where
  "object_prototype_keys =
     [''constructor'', ''hasOwnProperty'', ''isPrototypeOf'', ''propertyIsEnumerable'',
      ''toLocaleString'', ''toString'', ''valueOf'', ''__proto__'', ''__defineGetter__'',
      ''__defineSetter__'', ''__lookupGetter__'', ''__lookupSetter__'']"

definition js_in :: "string \<Rightarrow> usage \<Rightarrow> bool" where
  "js_in k obj = (k \<in> set (map fst obj) \<or> k \<in> set object_prototype_keys)"

text \<open>
  \<^verbatim>\<open>_handleSource\<close> of \<^verbatim>\<open>src/font-crawler.js\<close>. The argument \<open>exclude\<close> is the option
  \<^verbatim>\<open>excludeFontFamilies\<close> (\<open>None\<close> when it is not an array). Where the family is an
  inherited property of the object, \<^verbatim>\<open>source[css.fontFamily]\<close> is not an array and the
  call of its \<^verbatim>\<open>indexOf\<close> raises.
\<close>

definition variant_token :: "css \<Rightarrow> string" where
  "variant_token c = fontWeight c @ (if fontStyle c = ''normal'' then '''' else ''i'')"

definition handleSource :: "string list option \<Rightarrow> css \<Rightarrow> usage \<Rightarrow> error + usage" where
  "handleSource exclude c source =
     (if (case exclude of None \<Rightarrow> False | Some ex \<Rightarrow> fontFamily c \<in> set ex) then Inr source
      else
        let tok = variant_token c;
            source1 = (if \<not> js_in (fontFamily c) source
                       then AList.update (fontFamily c) [] source else source)
        in case map_of source1 (fontFamily c) of
             None \<Rightarrow> Inl TypeError
           | Some toks \<Rightarrow>
               if tok \<notin> set toks
               then Inr (AList.update (fontFamily c) (sort (toks @ [tok])) source1)
               else Inr source1)"

text \<open>Recording a sequence of sampled styles, as \<^verbatim>\<open>reduce\<close> does: the first raise aborts.\<close>

fun record_all :: "string list option \<Rightarrow> css list \<Rightarrow> usage \<Rightarrow> error + usage" where
  "record_all exclude [] source = Inr source"
| "record_all exclude (c # cs) source =
     (case handleSource exclude c source of
        Inl e \<Rightarrow> Inl e
      | Inr source' \<Rightarrow> record_all exclude cs source')"

definition usage_inv :: "usage \<Rightarrow> bool" where
  "usage_inv source =
     (distinct (map fst source) \<and>
      list_all (\<lambda>(family, toks). sorted toks \<and> distinct toks) source)"

section \<open>The host environment\<close>

text \<open>
  A node of the host tree is a text node, a comment, or an element with an identity and
  its child nodes. \<^verbatim>\<open>textContent\<close> of an element is the concatenation of the text of its
  descendants, comments left out.
\<close>

datatype node = TextNode string | CommentNode string | ElementNode nat "node list"

fun childNodes :: "node \<Rightarrow> node list" where
  "childNodes (ElementNode i cs) = cs"
| "childNodes n = []"

fun is_text_node :: "node \<Rightarrow> bool" where
  "is_text_node (TextNode s) = True"
| "is_text_node n = False"

fun descendant_text :: "node \<Rightarrow> string" where
  "descendant_text (TextNode s) = s"
| "descendant_text (CommentNode s) = ''''"
| "descendant_text (ElementNode i cs) = concat (map descendant_text cs)"

fun textContent :: "node \<Rightarrow> string" where
  "textContent (TextNode s) = s"
| "textContent (CommentNode s) = s"
| "textContent (ElementNode i cs) = concat (map descendant_text cs)"

definition is_space :: "char \<Rightarrow> bool" where
  "is_space c = (c \<in> set [CHR '' '', CHR 0x09, CHR 0x0A, CHR 0x0B, CHR 0x0C, CHR 0x0D, CHR 0xA0])"

definition trim :: "string \<Rightarrow> string" where
  "trim s = rev (dropWhile is_space (rev (dropWhile is_space s)))"

text \<open>
  The collaborators the crawler calls and does not own: the selector engine, the style
  computation, and the clock (\<open>getTime w n\<close> is the \<open>n\<close>-th reading, in milliseconds).
  They are functions of a tree that does not change during a crawl.
\<close>

record host =
  querySelectorAll :: "node \<Rightarrow> string \<Rightarrow> node list"
  matches :: "node \<Rightarrow> string \<Rightarrow> bool"
  getComputedStyle :: "node \<Rightarrow> string option \<Rightarrow> css"
  getTime :: "nat \<Rightarrow> int"

type_synonym entry = "node \<times> string option"

section \<open>The crawler of src/font-crawler.js: options and entry pipeline\<close>

datatype pseudo_ret = RetString string | RetArray "string list" | RetOther

datatype pseudo_opt =
    PseudoNull
  | PseudoString string
  | PseudoArray "string list"
  | PseudoFun "node \<Rightarrow> string option \<Rightarrow> pseudo_ret"

record options =
  querySelector :: string
  includeTarget :: bool
  includeElements :: "string option"
  excludeElements :: "string option"
  usePseudoElement :: pseudo_opt
  filter_opt :: "(node \<Rightarrow> string option \<Rightarrow> bool) option"
  excludeFontFamilies :: "string list option"
  asyncIntervalDuration :: jsnum

record crawler =
  window :: host
  target :: node
  opt :: options

definition querySelectorElements :: "crawler \<Rightarrow> node list" where
  "querySelectorElements I =
     (let nodeList = querySelectorAll (window I) (target I) (querySelector (opt I));
          elements = nodeList
      in if includeTarget (opt I) then target I # elements else elements)"

text \<open>\<^verbatim>\<open>_hasTextNodeChild\<close>: the loop over the child nodes, with its two early returns.\<close>

fun hasTextNodeChild_from :: "node \<Rightarrow> node list \<Rightarrow> bool" where
  "hasTextNodeChild_from element [] = False"
| "hasTextNodeChild_from element (child # rest) =
     (if \<not> is_text_node child then hasTextNodeChild_from element rest
      else if trim (textContent child) \<noteq> '''' then True
      else if trim (textContent element) \<noteq> '''' then True
      else hasTextNodeChild_from element rest)"

definition hasTextNodeChild :: "node \<Rightarrow> bool" where
  "hasTextNodeChild element = hasTextNodeChild_from element (childNodes element)"

text \<open>\<open>selector && element.matches(selector)\<close>: no selector, or the empty one, matches nothing.\<close>

definition selector_matches :: "host \<Rightarrow> string option \<Rightarrow> node \<Rightarrow> bool" where
  "selector_matches w sel element =
     (case sel of None \<Rightarrow> False | Some s \<Rightarrow> s \<noteq> '''' \<and> matches w element s)"

definition filterElements :: "crawler \<Rightarrow> node list \<Rightarrow> node list" where
  "filterElements I elements =
     filter (\<lambda>element.
        if selector_matches (window I) (includeElements (opt I)) element then True
        else if selector_matches (window I) (excludeElements (opt I)) element then False
        else hasTextNodeChild element) elements"

definition mapElementsAsEntries :: "node list \<Rightarrow> entry list" where
  "mapElementsAsEntries elements = map (\<lambda>element. (element, None)) elements"

text \<open>
  \<^verbatim>\<open>split(/\s*,\s*/)\<close>: at each position the separator is a comma with all the white space
  before and after it; where none starts, the character joins the current piece.
\<close>

function split_commas :: "string \<Rightarrow> string \<Rightarrow> string list" where
  "split_commas cur [] = [cur]"
| "split_commas cur (c # cs) =
     (case dropWhile is_space (c # cs) of
        [] \<Rightarrow> split_commas (cur @ [c]) cs
      | d # ds \<Rightarrow>
          if d = CHR '','' then cur # split_commas [] (dropWhile is_space ds)
          else split_commas (cur @ [c]) cs)"
  by pat_completeness auto
termination
proof (relation "measure (\<lambda>(cur, s). length s)")
  fix cur :: string and c cs d ds
  assume eq: "dropWhile is_space (c # cs) = d # ds"
  have "length (dropWhile is_space ds) \<le> length ds"
    by (rule length_dropWhile_le)
  also have "length ds < length (dropWhile is_space (c # cs))"
    unfolding eq by simp
  also have "\<dots> \<le> length (c # cs)"
    by (rule length_dropWhile_le)
  finally show "(([], dropWhile is_space ds), (cur, c # cs)) \<in> measure (\<lambda>(cur, s). length s)"
    by simp
qed auto

definition pseudo_name :: "string \<Rightarrow> string" where
  "pseudo_name pseudo = ''::'' @ dropWhile (\<lambda>c. c = CHR '':'') pseudo"

definition pseudo_truthy :: "pseudo_opt \<Rightarrow> bool" where
  "pseudo_truthy u = (case u of PseudoNull \<Rightarrow> False | PseudoString s \<Rightarrow> s \<noteq> '''' | _ \<Rightarrow> True)"

definition usePseudoElementEntries :: "crawler \<Rightarrow> entry list \<Rightarrow> entry list" where
  "usePseudoElementEntries I entries =
     (let u = usePseudoElement (opt I) in
      if \<not> pseudo_truthy u then entries
      else
        let u' = (case u of PseudoString s \<Rightarrow> PseudoArray (split_commas '''' s) | _ \<Rightarrow> u)
        in case u' of
             PseudoArray ps \<Rightarrow>
               foldl (\<lambda>result entry.
                        result @ [entry] @ map (\<lambda>pseudo. (fst entry, Some (pseudo_name pseudo))) ps)
                     [] entries
           | PseudoFun f \<Rightarrow>
               foldl (\<lambda>result entry.
                        let option = f (fst entry) (snd entry);
                            option' = (case option of
                                         RetString s \<Rightarrow> RetArray (split_commas '''' s)
                                       | _ \<Rightarrow> option)
                        in result @ [entry] @
                           (case option' of
                              RetArray ps \<Rightarrow> map (\<lambda>pseudo. (fst entry, Some (pseudo_name pseudo))) ps
                            | _ \<Rightarrow> []))
                     [] entries
           | _ \<Rightarrow> entries)"

definition filterEntries :: "crawler \<Rightarrow> entry list \<Rightarrow> entry list" where
  "filterEntries I entries =
     (case filter_opt (opt I) of
        Some f \<Rightarrow> filter (\<lambda>entry. f (fst entry) (snd entry)) entries
      | None \<Rightarrow> entries)"

definition getEntries :: "crawler \<Rightarrow> entry list" where
  "getEntries I =
     (let elements = querySelectorElements I;
          elements = filterElements I elements;
          entries = mapElementsAsEntries elements;
          entries = usePseudoElementEntries I entries;
          entries = filterEntries I entries
      in entries)"

definition handleElement :: "crawler \<Rightarrow> node \<Rightarrow> string option \<Rightarrow> usage \<Rightarrow> error + usage" where
  "handleElement I element pseudo source =
     (let style = getComputedStyle (window I) element pseudo
      in handleSource (excludeFontFamilies (opt I)) style source)"

definition handleEntry :: "crawler \<Rightarrow> entry \<Rightarrow> usage \<Rightarrow> error + usage" where
  "handleEntry I entry source = handleElement I (fst entry) (snd entry) source"

text \<open>The \<^verbatim>\<open>reduce\<close> of \<^verbatim>\<open>crawl\<close>: a raise in the handler aborts it.\<close>

fun reduce_entries :: "crawler \<Rightarrow> entry list \<Rightarrow> usage \<Rightarrow> error + usage" where
  "reduce_entries I [] carry = Inr carry"
| "reduce_entries I (entry # entries) carry =
     (case handleEntry I entry carry of
        Inl e \<Rightarrow> Inl e
      | Inr carry' \<Rightarrow> reduce_entries I entries carry')"

section \<open>The scheduler of src/font-crawler.js\<close>

text \<open>
  The state a crawl reads and writes: the instance fields \<^verbatim>\<open>__frameInterval\<close> and
  \<^verbatim>\<open>__frameTimestamp\<close> (\<open>None\<close> when deleted), the host's list of animation frame
  callbacks with their handles, the last handle the host gave out (handles start at 1), the
  number of clock readings made, and the completion callbacks invoked so far, each with the
  map it received. A callback is \<open>Some c\<close> when it is a function, named \<open>c\<close>.
\<close>

record 'task state =
  frameInterval :: "nat option"
  frameTimestamp :: "rat option"
  frames :: "(nat \<times> 'task) list"
  lastHandle :: nat
  ticks :: nat
  delivered :: "(nat \<times> usage) list"

definition requestAnimationFrame :: "'task \<Rightarrow> 'task state \<Rightarrow> nat \<times> 'task state" where
  "requestAnimationFrame t st =
     (let h = Suc (lastHandle st)
      in (h, st\<lparr>lastHandle := h, frames := frames st @ [(h, t)]\<rparr>))"

definition cancelAnimationFrame :: "nat \<Rightarrow> 'task state \<Rightarrow> 'task state" where
  "cancelAnimationFrame requestID st =
     st\<lparr>frames := filter (\<lambda>(h, t). h \<noteq> requestID) (frames st)\<rparr>"

definition getTimestamp :: "host \<Rightarrow> 'task state \<Rightarrow> rat \<times> 'task state" where
  "getTimestamp w st = (of_int (getTime w (ticks st)) / 1000, st\<lparr>ticks := Suc (ticks st)\<rparr>)"

definition isPending :: "'task state \<Rightarrow> bool" where
  "isPending st = (case frameInterval st of None \<Rightarrow> False | Some h \<Rightarrow> h \<noteq> 0)"

definition clear :: "'task state \<Rightarrow> 'task state" where
  "clear st =
     (let st1 = (case frameInterval st of
                   None \<Rightarrow> st
                 | Some h \<Rightarrow> if h \<noteq> 0 then cancelAnimationFrame h st else st)
      in st1\<lparr>frameTimestamp := None, frameInterval := None\<rparr>)"

text \<open>
  The closures handed to \<^verbatim>\<open>requestAnimationFrame\<close>: a pipeline stage delayed by
  \<^verbatim>\<open>_delayExec\<close> (method, arguments and the callback it continues with), the bound
  \<^verbatim>\<open>_crawlAsyncCallback\<close>, and the bound completion callback.
\<close>

datatype stage =
    QueryStage
  | FilterElementsStage "node list"
  | PseudoStage "entry list"
  | FilterEntriesStage "entry list"

datatype task =
    Delayed stage "nat option"
  | CrawlTask "entry list" usage "nat option"
  | DoneTask usage nat

definition crawlAsyncRequestFrame ::
  "entry list \<Rightarrow> usage \<Rightarrow> nat option \<Rightarrow> task state \<Rightarrow> task state" where
  "crawlAsyncRequestFrame entries source callback st =
     (let (h, st') = requestAnimationFrame (CrawlTask entries source callback) st
      in st'\<lparr>frameInterval := Some h\<rparr>)"

definition crawlAsyncClear :: "usage \<Rightarrow> nat option \<Rightarrow> task state \<Rightarrow> task state" where
  "crawlAsyncClear source callback st =
     (let st1 = clear st
      in case callback of
           Some c \<Rightarrow> snd (requestAnimationFrame (DoneTask source c) st1)
         | None \<Rightarrow> st1)"

text \<open>
  The first statement of \<^verbatim>\<open>_crawlAsyncCallback\<close>: a missing or zero timestamp is falsy.
  Timestamps are seconds, the millisecond reading divided by 1000; the quotient, the
  delay \<^verbatim>\<open>now - start\<close> and the comparison with the interval are exact here, where the
  source computes in doubles.
\<close>

definition stampFrame :: "host \<Rightarrow> 'task state \<Rightarrow> 'task state" where
  "stampFrame w st =
     (if (case frameTimestamp st of None \<Rightarrow> True | Some t \<Rightarrow> t = 0)
      then (let (t, st') = getTimestamp w st in st'\<lparr>frameTimestamp := Some t\<rparr>)
      else st)"

definition frameDelay :: "rat option \<Rightarrow> rat \<Rightarrow> jsnum" where
  "frameDelay start now = (case start of None \<Rightarrow> JNaN | Some s \<Rightarrow> JNum (now - s))"

function crawlAsyncCallback ::
    "crawler \<Rightarrow> entry list \<Rightarrow> usage \<Rightarrow> nat option \<Rightarrow> task state \<Rightarrow> error option \<times> task state"
  and crawlAsyncRecursion ::
    "crawler \<Rightarrow> entry list \<Rightarrow> usage \<Rightarrow> nat option \<Rightarrow> task state \<Rightarrow> error option \<times> task state"
where
  "crawlAsyncCallback I [] source callback st =
     crawlAsyncRecursion I [] source callback (stampFrame (window I) st)"
| "crawlAsyncCallback I (entry # entries) source callback st =
     (let st1 = stampFrame (window I) st
      in case handleEntry I entry source of
           Inl e \<Rightarrow> (Some e, st1)
         | Inr source' \<Rightarrow> crawlAsyncRecursion I entries source' callback st1)"
| "crawlAsyncRecursion I [] source callback st = (None, crawlAsyncClear source callback st)"
| "crawlAsyncRecursion I (entry # entries) source callback st =
     (let start = frameTimestamp st;
          now = fst (getTimestamp (window I) st);
          st2 = snd (getTimestamp (window I) st);
          delay = frameDelay start now
      in if js_lt delay (js_div (asyncIntervalDuration (opt I)) 1000)
         then crawlAsyncCallback I (entry # entries) source callback st2
         else (None, crawlAsyncRequestFrame (entry # entries) source callback (clear st2)))"
  by pat_completeness auto
termination
  by (relation "measure (\<lambda>x. case x of
          Inl (I, entries, r) \<Rightarrow> (if entries = [] then 1 else 2 * length entries)
        | Inr (I, entries, r) \<Rightarrow> (if entries = [] then 0 else 2 * length entries + 1))")
     auto

declare crawlAsyncCallback.simps [simp del] crawlAsyncRecursion.simps [simp del]

text \<open>
  The asynchronous pipeline \<^verbatim>\<open>_getEntriesAsync\<close>, innermost continuation first.
  \<^verbatim>\<open>_delayExec\<close> either queues the stage for the next frame or runs it at once.
\<close>

definition crawlAsync_entries :: "entry list \<Rightarrow> nat option \<Rightarrow> task state \<Rightarrow> task state" where
  "crawlAsync_entries entries callback st = crawlAsyncRequestFrame entries [] callback st"

definition filterEntriesAsync ::
  "crawler \<Rightarrow> entry list \<Rightarrow> nat option \<Rightarrow> task state \<Rightarrow> task state" where
  "filterEntriesAsync I entries callback st =
     (if filter_opt (opt I) \<noteq> None
      then snd (requestAnimationFrame (Delayed (FilterEntriesStage entries) callback) st)
      else crawlAsync_entries (filterEntries I entries) callback st)"

definition usePseudoElementEntriesAsync ::
  "crawler \<Rightarrow> entry list \<Rightarrow> nat option \<Rightarrow> task state \<Rightarrow> task state" where
  "usePseudoElementEntriesAsync I entries callback st =
     (if pseudo_truthy (usePseudoElement (opt I))
      then snd (requestAnimationFrame (Delayed (PseudoStage entries) callback) st)
      else filterEntriesAsync I (usePseudoElementEntries I entries) callback st)"

definition mapElementsAsEntriesAsync ::
  "crawler \<Rightarrow> node list \<Rightarrow> nat option \<Rightarrow> task state \<Rightarrow> task state" where
  "mapElementsAsEntriesAsync I elements callback st =
     usePseudoElementEntriesAsync I (mapElementsAsEntries elements) callback st"

definition filterElementsAsync ::
  "crawler \<Rightarrow> node list \<Rightarrow> nat option \<Rightarrow> task state \<Rightarrow> task state" where
  "filterElementsAsync I elements callback st =
     snd (requestAnimationFrame (Delayed (FilterElementsStage elements) callback) st)"

definition querySelectorElementsAsync :: "crawler \<Rightarrow> nat option \<Rightarrow> task state \<Rightarrow> task state" where
  "querySelectorElementsAsync I callback st =
     snd (requestAnimationFrame (Delayed QueryStage callback) st)"

definition getEntriesAsync :: "crawler \<Rightarrow> nat option \<Rightarrow> task state \<Rightarrow> task state" where
  "getEntriesAsync I callback st = querySelectorElementsAsync I callback st"

text \<open>What a delayed stage does when its frame comes: the method, then the continuation.\<close>

definition run_stage :: "crawler \<Rightarrow> stage \<Rightarrow> nat option \<Rightarrow> task state \<Rightarrow> task state" where
  "run_stage I s callback st =
     (case s of
        QueryStage \<Rightarrow> filterElementsAsync I (querySelectorElements I) callback st
      | FilterElementsStage elements \<Rightarrow>
          mapElementsAsEntriesAsync I (filterElements I elements) callback st
      | PseudoStage entries \<Rightarrow>
          filterEntriesAsync I (usePseudoElementEntries I entries) callback st
      | FilterEntriesStage entries \<Rightarrow>
          crawlAsync_entries (filterEntries I entries) callback st)"

definition run_task :: "crawler \<Rightarrow> task \<Rightarrow> task state \<Rightarrow> error option \<times> task state" where
  "run_task I t st =
     (case t of
        Delayed s callback \<Rightarrow> (None, run_stage I s callback st)
      | CrawlTask entries source callback \<Rightarrow> crawlAsyncCallback I entries source callback st
      | DoneTask source c \<Rightarrow> (None, st\<lparr>delivered := delivered st @ [(c, source)]\<rparr>))"

text \<open>The public methods. \<^verbatim>\<open>crawl\<close> writes no field of the instance.\<close>

definition crawl :: "crawler \<Rightarrow> task state \<Rightarrow> error + usage" where
  "crawl I st = (if isPending st then Inl Busy else reduce_entries I (getEntries I) [])"

definition crawlAsync :: "crawler \<Rightarrow> nat option \<Rightarrow> task state \<Rightarrow> error option \<times> task state" where
  "crawlAsync I callback st =
     (if isPending st then (Some Busy, st) else (None, getEntriesAsync I callback st))"

text \<open>
  The host runs the queued animation frame callbacks one at a time, oldest first; an
  exception raised by one ends that callback only.
\<close>

definition frame_step :: "crawler \<Rightarrow> task state \<Rightarrow> task state" where
  "frame_step I st =
     (case frames st of
        [] \<Rightarrow> st
      | (h, t) # rest \<Rightarrow> snd (run_task I t (st\<lparr>frames := rest\<rparr>)))"

fun run_frames :: "crawler \<Rightarrow> nat \<Rightarrow> task state \<Rightarrow> task state" where
  "run_frames I 0 st = st"
| "run_frames I (Suc n) st = run_frames I n (frame_step I st)"

definition fresh :: "'task state" where
  "fresh = \<lparr>frameInterval = None, frameTimestamp = None, frames = [], lastHandle = 0,
            ticks = 0, delivered = []\<rparr>"

section \<open>The count-budgeted revision (first file of src/unnamed/part_000)\<close>

record options_v1 =
  querySelector_v1 :: string
  includeTarget_v1 :: bool
  useTextNodesOnly_v1 :: bool
  usePseudoElements_v1 :: "string option"
  filter_v1 :: "(node \<Rightarrow> string option \<Rightarrow> bool) option"
  asyncMax_v1 :: jsnum

record crawler_v1 =
  window_v1 :: host
  target_v1 :: node
  opt_v1 :: options_v1

definition defaults_asyncMax :: jsnum where
  "defaults_asyncMax = JNum 1000"

text \<open>\<^verbatim>\<open>_handleSource\<close> and \<^verbatim>\<open>_handleElement\<close>, the same text in both files of part_000.\<close>

definition handleSource_v1 :: "css \<Rightarrow> usage \<Rightarrow> error + usage" where
  "handleSource_v1 c source =
     (let tok = fontWeight c @ (if fontStyle c = ''normal'' then '''' else ''i'');
          source1 = (if \<not> js_in (fontFamily c) source
                     then AList.update (fontFamily c) [] source else source)
      in case map_of source1 (fontFamily c) of
           None \<Rightarrow> Inl TypeError
         | Some toks \<Rightarrow>
             if tok \<notin> set toks
             then Inr (AList.update (fontFamily c) (sort (toks @ [tok])) source1)
             else Inr source1)"

definition handleElement_v1 :: "host \<Rightarrow> node \<Rightarrow> string option \<Rightarrow> usage \<Rightarrow> error + usage" where
  "handleElement_v1 w element pseudo source =
     handleSource_v1 (getComputedStyle w element pseudo) source"

text \<open>The simple text-node check: any text node child, whatever its content.\<close>

definition hasTextNodeChild_v1 :: "node \<Rightarrow> bool" where
  "hasTextNodeChild_v1 element = list_ex is_text_node (childNodes element)"

text \<open>\<^verbatim>\<open>replace(/[^\w\-,]/g, "").split(",")\<close>\<close>

definition is_word_char :: "char \<Rightarrow> bool" where
  "is_word_char c =
     ((CHR ''a'' \<le> c \<and> c \<le> CHR ''z'') \<or> (CHR ''A'' \<le> c \<and> c \<le> CHR ''Z'') \<or>
      (CHR ''0'' \<le> c \<and> c \<le> CHR ''9'') \<or> c = CHR ''_'')"

fun split_on :: "char \<Rightarrow> string \<Rightarrow> string \<Rightarrow> string list" where
  "split_on sep cur [] = [cur]"
| "split_on sep cur (c # cs) =
     (if c = sep then cur # split_on sep '''' cs else split_on sep (cur @ [c]) cs)"

definition pseudo_list_v1 :: "string \<Rightarrow> string list" where
  "pseudo_list_v1 pseudoElements =
     split_on (CHR '','') ''''
       (filter (\<lambda>c. is_word_char c \<or> c = CHR ''-'' \<or> c = CHR '','') pseudoElements)"

definition elementWithPseudoEntries_v1 :: "crawler_v1 \<Rightarrow> entry list" where
  "elementWithPseudoEntries_v1 I =
     (let children = querySelectorAll (window_v1 I) (target_v1 I) (querySelector_v1 (opt_v1 I));
          elements = (if includeTarget_v1 (opt_v1 I) then target_v1 I # children else children);
          pseudoElements = (case usePseudoElements_v1 (opt_v1 I) of
                              None \<Rightarrow> []
                            | Some s \<Rightarrow> if s = '''' then [] else pseudo_list_v1 s)
      in filter (\<lambda>entry.
                   if useTextNodesOnly_v1 (opt_v1 I) \<and> \<not> hasTextNodeChild_v1 (fst entry) then False
                   else (case filter_v1 (opt_v1 I) of
                           Some f \<Rightarrow> f (fst entry) (snd entry)
                         | None \<Rightarrow> True))
           (foldl (\<lambda>carry element.
                     carry @ [(element, None)] @
                     map (\<lambda>pseudo. (element, Some (''::'' @ pseudo))) pseudoElements)
                  [] elements))"

datatype task_v1 = RecursiveTask "entry list" jsnum usage "nat option"

text \<open>The \<^verbatim>\<open>while (done++ < count && entries.length)\<close> loop of one frame.\<close>

fun crawl_slice_v1 ::
  "crawler_v1 \<Rightarrow> nat \<Rightarrow> jsnum \<Rightarrow> entry list \<Rightarrow> usage \<Rightarrow> error + (entry list \<times> usage)" where
  "crawl_slice_v1 I done count [] source = Inr ([], source)"
| "crawl_slice_v1 I done count (entry # entries) source =
     (if js_lt (JNum (of_nat done)) count
      then (case handleElement_v1 (window_v1 I) (fst entry) (snd entry) source of
              Inl e \<Rightarrow> Inl e
            | Inr source' \<Rightarrow> crawl_slice_v1 I (Suc done) count entries source')
      else Inr (entry # entries, source))"

definition crawlAsyncRecursive_v1 ::
  "entry list \<Rightarrow> jsnum \<Rightarrow> usage \<Rightarrow> nat option \<Rightarrow> task_v1 state \<Rightarrow> task_v1 state" where
  "crawlAsyncRecursive_v1 entries count source callback st =
     snd (requestAnimationFrame (RecursiveTask entries count source callback) st)"

definition run_task_v1 :: "crawler_v1 \<Rightarrow> task_v1 \<Rightarrow> task_v1 state \<Rightarrow> error option \<times> task_v1 state" where
  "run_task_v1 I t st =
     (case t of RecursiveTask entries count source callback \<Rightarrow>
        (case crawl_slice_v1 I 0 count entries source of
           Inl e \<Rightarrow> (Some e, st)
         | Inr (entries', source') \<Rightarrow>
             if entries' \<noteq> [] then (None, crawlAsyncRecursive_v1 entries' count source' callback st)
             else (case callback of
                     Some c \<Rightarrow> (None, st\<lparr>delivered := delivered st @ [(c, source')]\<rparr>)
                   | None \<Rightarrow> (None, st))))"

definition crawlAsync_v1 :: "crawler_v1 \<Rightarrow> nat option \<Rightarrow> task_v1 state \<Rightarrow> task_v1 state" where
  "crawlAsync_v1 I callback st =
     (let count = asyncMax_v1 (opt_v1 I);
          count = (if js_falsy count \<or> js_lt count (JNum 0) then defaults_asyncMax else count)
      in crawlAsyncRecursive_v1 (elementWithPseudoEntries_v1 I) count [] callback st)"

definition frame_step_v1 :: "crawler_v1 \<Rightarrow> task_v1 state \<Rightarrow> task_v1 state" where
  "frame_step_v1 I st =
     (case frames st of
        [] \<Rightarrow> st
      | (h, t) # rest \<Rightarrow> snd (run_task_v1 I t (st\<lparr>frames := rest\<rparr>)))"

section \<open>The earlier time-budgeted revision (second file of src/unnamed/part_000)\<close>

record options_v2 =
  querySelector_v2 :: string
  includeTarget_v2 :: bool
  useTextNodesOnly_v2 :: bool
  usePseudoElements_v2 :: "string option"
  filter_v2 :: "(node \<Rightarrow> string option \<Rightarrow> bool) option"
  asyncIntervalDuration_v2 :: jsnum

record crawler_v2 =
  window_v2 :: host
  target_v2 :: node
  opt_v2 :: options_v2

text \<open>
  \<^verbatim>\<open>_addPseudoEntries\<close>. The reducer pushes onto \<open>carry\<close> and returns nothing, so
  \<^verbatim>\<open>reduce\<close> hands \<^verbatim>\<open>undefined\<close> (\<open>None\<close>) to the next call, whose \<^verbatim>\<open>carry.push\<close> raises;
  the value of the last call is the result.
\<close>

definition addPseudoEntries_reducer ::
  "string list \<Rightarrow> entry list option \<Rightarrow> entry \<Rightarrow> error + entry list option" where
  "addPseudoEntries_reducer pseudoElements carry entry =
     (case carry of
        None \<Rightarrow> Inl TypeError
      | Some c \<Rightarrow>
          (let pushed = c @ [entry] @
                        map (\<lambda>pseudo. (fst entry, Some (''::'' @ pseudo))) pseudoElements
           in Inr None))"

fun js_reduce :: "('a \<Rightarrow> 'b \<Rightarrow> error + 'a) \<Rightarrow> 'b list \<Rightarrow> 'a \<Rightarrow> error + 'a" where
  "js_reduce f [] carry = Inr carry"
| "js_reduce f (x # xs) carry =
     (case f carry x of Inl e \<Rightarrow> Inl e | Inr carry' \<Rightarrow> js_reduce f xs carry')"

definition addPseudoEntries_v2 :: "crawler_v2 \<Rightarrow> entry list \<Rightarrow> error + entry list option" where
  "addPseudoEntries_v2 I entries =
     (case usePseudoElements_v2 (opt_v2 I) of
        None \<Rightarrow> Inr (Some entries)
      | Some s \<Rightarrow>
          if s = '''' then Inr (Some entries)
          else js_reduce (addPseudoEntries_reducer (pseudo_list_v1 s)) entries (Some []))"

text \<open>
  \<^verbatim>\<open>_handleEntry\<close> reads \<^verbatim>\<open>entry[0]\<close>: on \<^verbatim>\<open>undefined\<close>, what \<^verbatim>\<open>shift\<close> returns on an
  empty array, it raises. \<^verbatim>\<open>_crawlAsyncCallback\<close> of this revision shifts without looking
  at the length.
\<close>

definition handleEntry_v2 :: "crawler_v2 \<Rightarrow> entry option \<Rightarrow> usage \<Rightarrow> error + usage" where
  "handleEntry_v2 I entry source =
     (case entry of
        None \<Rightarrow> Inl TypeError
      | Some e \<Rightarrow> handleElement_v1 (window_v2 I) (fst e) (snd e) source)"

function crawlAsyncCallback_v2 ::
    "crawler_v2 \<Rightarrow> entry list \<Rightarrow> usage \<Rightarrow> nat option \<Rightarrow> task state \<Rightarrow> error option \<times> task state"
  and crawlAsyncRecursion_v2 ::
    "crawler_v2 \<Rightarrow> entry list \<Rightarrow> usage \<Rightarrow> nat option \<Rightarrow> task state \<Rightarrow> error option \<times> task state"
where
  "crawlAsyncCallback_v2 I [] source callback st =
     (let st1 = stampFrame (window_v2 I) st
      in case handleEntry_v2 I None source of
           Inl e \<Rightarrow> (Some e, st1)
         | Inr source' \<Rightarrow> crawlAsyncRecursion_v2 I [] source' callback st1)"
| "crawlAsyncCallback_v2 I (entry # entries) source callback st =
     (let st1 = stampFrame (window_v2 I) st
      in case handleEntry_v2 I (Some entry) source of
           Inl e \<Rightarrow> (Some e, st1)
         | Inr source' \<Rightarrow> crawlAsyncRecursion_v2 I entries source' callback st1)"
| "crawlAsyncRecursion_v2 I [] source callback st = (None, crawlAsyncClear source callback st)"
| "crawlAsyncRecursion_v2 I (entry # entries) source callback st =
     (let start = frameTimestamp st;
          now = fst (getTimestamp (window_v2 I) st);
          st2 = snd (getTimestamp (window_v2 I) st);
          delay = frameDelay start now
      in if js_lt delay (js_div (asyncIntervalDuration_v2 (opt_v2 I)) 1000)
         then crawlAsyncCallback_v2 I (entry # entries) source callback st2
         else (None, crawlAsyncRequestFrame (entry # entries) source callback (clear st2)))"
  by pat_completeness auto
termination
  by (relation "measure (\<lambda>x. case x of
          Inl (I, entries, r) \<Rightarrow> (if entries = [] then 1 else 2 * length entries)
        | Inr (I, entries, r) \<Rightarrow> (if entries = [] then 0 else 2 * length entries + 1))")
     auto

declare crawlAsyncCallback_v2.simps [simp del] crawlAsyncRecursion_v2.simps [simp del]

section \<open>Notions the statements use\<close>

text \<open>
  The element filter in the words of the specification: an element is kept when it matches
  the always-include selector, or when it does not match the always-exclude selector and
  has a text node child whose trimmed content is non-empty or whose parent's trimmed text
  content is non-empty.
\<close>

definition meaningful_text_child :: "node \<Rightarrow> node \<Rightarrow> bool" where
  "meaningful_text_child parent child =
     (is_text_node child \<and> (trim (textContent child) \<noteq> '''' \<or> trim (textContent parent) \<noteq> ''''))"

definition spec_keeps_element :: "crawler \<Rightarrow> node \<Rightarrow> bool" where
  "spec_keeps_element I element =
     (selector_matches (window I) (includeElements (opt I)) element \<or>
      (\<not> selector_matches (window I) (excludeElements (opt I)) element \<and>
       list_ex (meaningful_text_child element) (childNodes element)))"

text \<open>
  Pseudo-element expansion in the words of the specification: the names the configuration
  gives for an entry, and each entry followed by one entry per name, the name with its
  leading colons stripped and \<open>::\<close> put before it.
\<close>

definition configured_pseudo_names :: "pseudo_opt \<Rightarrow> entry \<Rightarrow> string list" where
  "configured_pseudo_names u entry =
     (case u of
        PseudoNull \<Rightarrow> []
      | PseudoString s \<Rightarrow> if s = '''' then [] else split_commas '''' s
      | PseudoArray ps \<Rightarrow> ps
      | PseudoFun f \<Rightarrow>
          (case f (fst entry) (snd entry) of
             RetString s \<Rightarrow> split_commas '''' s
           | RetArray ps \<Rightarrow> ps
           | RetOther \<Rightarrow> []))"

definition spec_expand :: "crawler \<Rightarrow> entry list \<Rightarrow> entry list" where
  "spec_expand I entries =
     concat (map (\<lambda>entry. entry #
                    map (\<lambda>name. (fst entry, Some (''::'' @ dropWhile (\<lambda>c. c = CHR '':'') name)))
                        (configured_pseudo_names (usePseudoElement (opt I)) entry))
                 entries)"

text \<open>
  One asynchronous crawl in flight, seen between frames. Each queued closure determines the
  map the crawl will end with (or the exception it will meet) and a bound on the work left.
\<close>

definition entries_from :: "crawler \<Rightarrow> stage \<Rightarrow> entry list" where
  "entries_from I s =
     (case s of
        QueryStage \<Rightarrow> getEntries I
      | FilterElementsStage elements \<Rightarrow>
          filterEntries I (usePseudoElementEntries I (mapElementsAsEntries (filterElements I elements)))
      | PseudoStage entries \<Rightarrow> filterEntries I (usePseudoElementEntries I entries)
      | FilterEntriesStage entries \<Rightarrow> filterEntries I entries)"

definition stage_rank :: "stage \<Rightarrow> nat" where
  "stage_rank s =
     (case s of QueryStage \<Rightarrow> 4 | FilterElementsStage elements \<Rightarrow> 3
      | PseudoStage entries \<Rightarrow> 2 | FilterEntriesStage entries \<Rightarrow> 1)"

definition task_result :: "crawler \<Rightarrow> task \<Rightarrow> error + usage" where
  "task_result I t =
     (case t of
        Delayed s callback \<Rightarrow> reduce_entries I (entries_from I s) []
      | CrawlTask entries source callback \<Rightarrow> reduce_entries I entries source
      | DoneTask source c \<Rightarrow> Inr source)"

definition task_callback :: "task \<Rightarrow> nat option" where
  "task_callback t =
     (case t of
        Delayed s callback \<Rightarrow> callback
      | CrawlTask entries source callback \<Rightarrow> callback
      | DoneTask source c \<Rightarrow> Some c)"

definition task_work :: "crawler \<Rightarrow> task \<Rightarrow> nat" where
  "task_work I t =
     (case t of
        Delayed s callback \<Rightarrow> length (entries_from I s) + 3 + stage_rank s
      | CrawlTask entries source callback \<Rightarrow> length entries + 2
      | DoneTask source c \<Rightarrow> 1)"

definition is_crawl_task :: "task \<Rightarrow> bool" where
  "is_crawl_task t = (case t of CrawlTask entries source callback \<Rightarrow> True | _ \<Rightarrow> False)"

definition queued :: "crawler \<Rightarrow> nat option \<Rightarrow> error + usage \<Rightarrow> task state \<Rightarrow> bool" where
  "queued I callback R st =
     (\<exists>h t. frames st = [(h, t)] \<and> h \<noteq> 0 \<and> delivered st = [] \<and>
            task_result I t = R \<and> task_callback t = callback \<and>
            frameTimestamp st = None \<and>
            frameInterval st = (if is_crawl_task t then Some h else None))"

definition finished :: "nat option \<Rightarrow> error + usage \<Rightarrow> task state \<Rightarrow> bool" where
  "finished callback R st =
     (frames st = [] \<and> frameInterval st = None \<and> frameTimestamp st = None \<and>
      (\<exists>m. R = Inr m \<and> delivered st = (case callback of None \<Rightarrow> [] | Some c \<Rightarrow> [(c, m)])))"

definition crashed :: "error + usage \<Rightarrow> task state \<Rightarrow> bool" where
  "crashed R st = (frames st = [] \<and> isPending st \<and> delivered st = [] \<and> (\<exists>e. R = Inl e))"

definition in_flight :: "crawler \<Rightarrow> nat option \<Rightarrow> error + usage \<Rightarrow> task state \<Rightarrow> bool" where
  "in_flight I callback R st = (queued I callback R st \<or> finished callback R st \<or> crashed R st)"

definition remaining :: "crawler \<Rightarrow> task state \<Rightarrow> nat" where
  "remaining I st = (case frames st of [] \<Rightarrow> 0 | (h, t) # rest \<Rightarrow> task_work I t)"

definition idle :: "task state \<Rightarrow> bool" where
  "idle st =
     (frameInterval st = None \<and> frameTimestamp st = None \<and> frames st = [] \<and> delivered st = [])"

section \<open>A small page to run the crawlers on\<close>

text \<open>
  A root with two paragraphs, the first rendered in Arial 700 italic with the text \<open>hi\<close>,
  the second in Georgia 400 normal, and an empty division. The clock stands still.
\<close>

definition page_p1 :: node where
  "page_p1 = ElementNode 1 [TextNode ''hi'']"

definition page_p2 :: node where
  "page_p2 = ElementNode 2 [TextNode ''yo'']"

definition page_div :: node where
  "page_div = ElementNode 3 []"

definition page_root :: node where
  "page_root = ElementNode 0 [page_p1, page_p2, page_div]"

definition page_style :: "node \<Rightarrow> string option \<Rightarrow> css" where
  "page_style element pseudo =
     (if element = page_p1
      then \<lparr>fontFamily = ''Arial'', fontWeight = ''700'', fontStyle = ''italic''\<rparr>
      else \<lparr>fontFamily = ''Georgia'', fontWeight = ''400'', fontStyle = ''normal''\<rparr>)"

definition page_host :: host where
  "page_host =
     \<lparr>querySelectorAll = (\<lambda>t selector. [page_p1, page_p2, page_div]),
      matches = (\<lambda>element selector. False),
      getComputedStyle = page_style,
      getTime = (\<lambda>n. 0)\<rparr>"

definition default_options :: options where
  "default_options =
     \<lparr>querySelector = ''*'', includeTarget = True,
      includeElements = Some ''input:not([type=checkbox]),textarea'',
      excludeElements = Some ''base,head,link,meta,script,style,title'',
      usePseudoElement = PseudoNull, filter_opt = None, excludeFontFamilies = None,
      asyncIntervalDuration = JNum 16\<rparr>"

definition page_crawler :: crawler where
  "page_crawler = \<lparr>window = page_host, target = page_root, opt = default_options\<rparr>"

definition page_crawler_v1 :: crawler_v1 where
  "page_crawler_v1 =
     \<lparr>window_v1 = page_host, target_v1 = page_root,
      opt_v1 = \<lparr>querySelector_v1 = ''*'', includeTarget_v1 = True, useTextNodesOnly_v1 = True,
                usePseudoElements_v1 = None, filter_v1 = None, asyncMax_v1 = JNum 1000\<rparr>\<rparr>"

definition page_crawler_v2 :: crawler_v2 where
  "page_crawler_v2 =
     \<lparr>window_v2 = page_host, target_v2 = page_root,
      opt_v2 = \<lparr>querySelector_v2 = ''*'', includeTarget_v2 = True, useTextNodesOnly_v2 = True,
                usePseudoElements_v2 = Some ''before,after'', filter_v2 = None,
                asyncIntervalDuration_v2 = JNum 16\<rparr>\<rparr>"

section \<open>Properties of the source handler\<close>

lemma handleSource_excluded:
  "fontFamily c \<in> set ex \<Longrightarrow> handleSource (Some ex) c source = Inr source"
  by (simp add: handleSource_def)

lemma usage_inv_update:
  assumes "usage_inv source" "sorted toks" "distinct toks"
  shows "usage_inv (AList.update k toks source)"
proof -
  have d: "distinct (map fst (AList.update k toks source))"
    using assms(1) by (simp add: usage_inv_def distinct_update)
  have "set (AList.update k toks source) \<subseteq> insert (k, toks) (set source)"
    by (induction source) auto
  then have "list_all (\<lambda>(family, toks). sorted toks \<and> distinct toks) (AList.update k toks source)"
    using assms by (auto simp: usage_inv_def list_all_iff)
  with d show ?thesis by (simp add: usage_inv_def)
qed

lemma usage_inv_lookup:
  "usage_inv source \<Longrightarrow> map_of source k = Some toks \<Longrightarrow> sorted toks \<and> distinct toks"
  by (auto simp: usage_inv_def list_all_iff dest: map_of_SomeD)

lemma handleSource_inv:
  assumes "usage_inv source" "handleSource exclude c source = Inr source'"
  shows "usage_inv source'"
proof (cases "case exclude of None \<Rightarrow> False | Some ex \<Rightarrow> fontFamily c \<in> set ex")
  case True
  with assms show ?thesis by (simp add: handleSource_def)
next
  case False
  define source1 where
    "source1 = (if \<not> js_in (fontFamily c) source
                then AList.update (fontFamily c) [] source else source)"
  have inv1: "usage_inv source1"
    using assms(1) by (simp add: source1_def usage_inv_update)
  show ?thesis
  proof (cases "map_of source1 (fontFamily c)")
    case None
    with False assms(2) show ?thesis
      by (simp add: handleSource_def Let_def source1_def)
  next
    case (Some toks)
    have st: "sorted toks \<and> distinct toks"
      using inv1 Some by (rule usage_inv_lookup)
    show ?thesis
    proof (cases "variant_token c \<in> set toks")
      case True
      with False Some assms(2) have "source' = source1"
        by (simp add: handleSource_def Let_def source1_def)
      with inv1 show ?thesis by simp
    next
      case notin: False
      with False Some assms(2)
      have s': "source' = AList.update (fontFamily c) (sort (toks @ [variant_token c])) source1"
        by (simp add: handleSource_def Let_def source1_def)
      have "sorted (sort (toks @ [variant_token c]))" by simp
      moreover have "distinct (sort (toks @ [variant_token c]))"
        using st notin by simp
      ultimately show ?thesis
        unfolding s' using inv1 by (intro usage_inv_update)
    qed
  qed
qed

lemma record_all_inv:
  "usage_inv source \<Longrightarrow> record_all exclude cs source = Inr source' \<Longrightarrow> usage_inv source'"
proof (induction cs arbitrary: source)
  case Nil
  then show ?case by simp
next
  case (Cons c cs)
  then show ?case
    by (auto split: sum.splits dest: handleSource_inv)
qed

lemma own_key: "map_of source k = Some v \<Longrightarrow> k \<in> fst ` set source"
  by (metis map_of_eq_None_iff option.distinct(1))

lemma js_in_own: "map_of source k = Some v \<Longrightarrow> js_in k source"
  by (auto simp: js_in_def dest: own_key)

lemma handleSource_token:
  assumes "handleSource exclude c source = Inr source'"
    and "\<forall>ex. exclude = Some ex \<longrightarrow> fontFamily c \<notin> set ex"
  shows "\<exists>toks. map_of source' (fontFamily c) = Some toks \<and>
           set toks = insert (variant_token c)
             (case map_of source (fontFamily c) of None \<Rightarrow> {} | Some old \<Rightarrow> set old)"
  using assms
  by (cases exclude)
     (auto simp: handleSource_def Let_def update_conv' split: if_splits option.splits
           dest: js_in_own)

lemma handleSource_first:
  assumes "\<not> js_in (fontFamily c) source"
    and "\<forall>ex. exclude = Some ex \<longrightarrow> fontFamily c \<notin> set ex"
  shows "handleSource exclude c source = Inr (source @ [(fontFamily c, [variant_token c])])"
proof -
  have n: "fontFamily c \<notin> fst ` set source"
    using assms(1) by (simp add: js_in_def)
  have u: "\<And>v. source @ [(fontFamily c, v)] = AList.update (fontFamily c) v source"
    using n by (induction source) auto
  show ?thesis
    using assms by (cases exclude) (simp_all add: handleSource_def Let_def update_conv' u)
qed

lemma handleSource_keys:
  assumes "handleSource exclude c source = Inr source'"
  shows "map fst source' =
           (if fontFamily c \<in> set (map fst source) \<or>
               (\<exists>ex. exclude = Some ex \<and> fontFamily c \<in> set ex)
            then map fst source else map fst source @ [fontFamily c])"
proof (cases "\<exists>ex. exclude = Some ex \<and> fontFamily c \<in> set ex")
  case True
  with assms show ?thesis by (auto simp: handleSource_def)
next
  case nex: False
  show ?thesis
  proof (cases "js_in (fontFamily c) source")
    case False
    with handleSource_first[OF False, of exclude] nex assms
    show ?thesis by (auto simp: js_in_def)
  next
    case True
    show ?thesis
    proof (cases "map_of source (fontFamily c)")
      case None
      with True nex assms show ?thesis
        by (cases exclude) (simp_all add: handleSource_def Let_def)
    next
      case (Some toks)
      then have own: "fontFamily c \<in> fst ` set source" by (rule own_key)
      then have k': "\<And>v. map fst (AList.update (fontFamily c) v source) = map fst source"
        by (simp add: update_keys)
      from True nex Some assms have "map fst source' = map fst source"
        by (cases exclude) (auto simp: handleSource_def Let_def k' split: if_splits)
      with own show ?thesis by simp
    qed
  qed
qed

lemma handleSource_raises_iff:
  "handleSource exclude c source = Inl e \<longleftrightarrow>
     e = TypeError \<and> fontFamily c \<in> set object_prototype_keys \<and>
     fontFamily c \<notin> fst ` set source \<and>
     (\<forall>ex. exclude = Some ex \<longrightarrow> fontFamily c \<notin> set ex)"
proof (cases "map_of source (fontFamily c)")
  case None
  then have "fontFamily c \<notin> fst ` set source"
    by (simp add: map_of_eq_None_iff)
  with None show ?thesis
    by (cases exclude) (auto simp: handleSource_def Let_def js_in_def update_conv')
next
  case (Some toks)
  from Some have "fontFamily c \<in> fst ` set source" by (rule own_key)
  moreover from Some have "js_in (fontFamily c) source" by (rule js_in_own)
  ultimately show ?thesis
    using Some by (cases exclude) (auto simp: handleSource_def Let_def)
qed

text \<open>
  Claim C6. For every sampled style that the source handler records (it returns, and the
  family is not excluded), the family's sequence afterwards holds the weight string with
  \<open>i\<close> appended exactly when the style is not \<open>normal\<close>, beside the tokens it already held.
  Weight 700 in italic, recorded into the empty map for Arial, gives \<open>700i\<close>; weights 400
  normal and 400 italic for Georgia give the sorted pair \<open>400\<close>, \<open>400i\<close> in either order of
  arrival.
\<close>

theorem variant_token_recorded:
  assumes "handleSource exclude c source = Inr source'"
    and "\<forall>ex. exclude = Some ex \<longrightarrow> fontFamily c \<notin> set ex"
  shows "(\<exists>toks. map_of source' (fontFamily c) = Some toks \<and>
            set toks = insert (if fontStyle c = ''normal'' then fontWeight c else fontWeight c @ ''i'')
              (case map_of source (fontFamily c) of None \<Rightarrow> {} | Some old \<Rightarrow> set old)) \<and>
         handleSource None \<lparr>fontFamily = ''Arial'', fontWeight = ''700'', fontStyle = ''italic''\<rparr> []
           = Inr [(''Arial'', [''700i''])] \<and>
         record_all None
           [\<lparr>fontFamily = ''Georgia'', fontWeight = ''400'', fontStyle = ''normal''\<rparr>,
            \<lparr>fontFamily = ''Georgia'', fontWeight = ''400'', fontStyle = ''italic''\<rparr>] []
           = Inr [(''Georgia'', [''400'', ''400i''])] \<and>
         record_all None
           [\<lparr>fontFamily = ''Georgia'', fontWeight = ''400'', fontStyle = ''italic''\<rparr>,
            \<lparr>fontFamily = ''Georgia'', fontWeight = ''400'', fontStyle = ''normal''\<rparr>] []
           = Inr [(''Georgia'', [''400'', ''400i''])]"
proof -
  have tok: "variant_token c = (if fontStyle c = ''normal'' then fontWeight c else fontWeight c @ ''i'')"
    by (simp add: variant_token_def)
  have general: "\<exists>toks. map_of source' (fontFamily c) = Some toks \<and>
            set toks = insert (if fontStyle c = ''normal'' then fontWeight c else fontWeight c @ ''i'')
              (case map_of source (fontFamily c) of None \<Rightarrow> {} | Some old \<Rightarrow> set old)"
    using handleSource_token[OF assms] unfolding tok .
  have arial: "handleSource None \<lparr>fontFamily = ''Arial'', fontWeight = ''700'', fontStyle = ''italic''\<rparr> []
           = Inr [(''Arial'', [''700i''])]"
    by code_simp
  have georgia1: "record_all None
           [\<lparr>fontFamily = ''Georgia'', fontWeight = ''400'', fontStyle = ''normal''\<rparr>,
            \<lparr>fontFamily = ''Georgia'', fontWeight = ''400'', fontStyle = ''italic''\<rparr>] []
           = Inr [(''Georgia'', [''400'', ''400i''])]"
    by code_simp
  have georgia2: "record_all None
           [\<lparr>fontFamily = ''Georgia'', fontWeight = ''400'', fontStyle = ''italic''\<rparr>,
            \<lparr>fontFamily = ''Georgia'', fontWeight = ''400'', fontStyle = ''normal''\<rparr>] []
           = Inr [(''Georgia'', [''400'', ''400i''])]"
    by code_simp
  from general arial georgia1 georgia2 show ?thesis by blast
qed

theorem variant_token_recorded_witness:
  "\<exists>toks. map_of [(''Arial'', [''400'', ''700i''])] ''Arial'' = Some toks \<and>
          set toks = {''700i'', ''400''}"
proof -
  have run: "handleSource (Some [''serif''])
               \<lparr>fontFamily = ''Arial'', fontWeight = ''700'', fontStyle = ''italic''\<rparr>
               [(''Arial'', [''400''])]
             = Inr [(''Arial'', [''400'', ''700i''])]"
    by code_simp
  have ex: "\<forall>ex. Some [''serif''] = Some ex \<longrightarrow>
              fontFamily \<lparr>fontFamily = ''Arial'', fontWeight = ''700'', fontStyle = ''italic''\<rparr> \<notin> set ex"
    by simp
  from variant_token_recorded[OF run ex] show ?thesis by simp
qed

text \<open>
  Claim C2. Every family's token sequence stays sorted and free of duplicates, and keys stay
  distinct (lemmas \<open>handleSource_inv\<close>, \<open>record_all_inv\<close>, \<open>handleSource_keys\<close>), but a family
  is not always inserted on its first encounter: \<^verbatim>\<open>css.fontFamily in source\<close> is also true
  for a name inherited from \<^verbatim>\<open>Object.prototype\<close>, so for the family \<open>constructor\<close> the key
  is not created and the call of \<^verbatim>\<open>indexOf\<close> on the inherited value raises. The record
  operation fails on the empty map, and a crawl that meets such a family aborts.
\<close>

theorem handleSource_inherited_family_raises:
  "handleSource None \<lparr>fontFamily = ''constructor'', fontWeight = ''400'', fontStyle = ''normal''\<rparr> []
     = Inl TypeError \<and>
   record_all None
     [\<lparr>fontFamily = ''Arial'', fontWeight = ''400'', fontStyle = ''normal''\<rparr>,
      \<lparr>fontFamily = ''constructor'', fontWeight = ''400'', fontStyle = ''normal''\<rparr>] []
     = Inl TypeError"
  by code_simp

section \<open>The entry pipeline\<close>

lemma hasTextNodeChild_from_spec:
  "hasTextNodeChild_from element cs = list_ex (meaningful_text_child element) cs"
  by (induction cs) (auto simp: meaningful_text_child_def)

lemma keeps_iff_spec:
  "(if selector_matches w inc element then True
    else if selector_matches w exc element then False
    else hasTextNodeChild element)
   = (selector_matches w inc element \<or>
      (\<not> selector_matches w exc element \<and>
       list_ex (meaningful_text_child element) (childNodes element)))"
  by (simp add: hasTextNodeChild_def hasTextNodeChild_from_spec)

text \<open>
  Claim C7. The element filter of \<^verbatim>\<open>src/font-crawler.js\<close> (the strict text-node check)
  keeps an element if and only if it matches the configured always-include selector, or it
  does not match the configured always-exclude selector and has at least one text node
  child whose trimmed content is non-empty or whose parent's trimmed text content is
  non-empty; the elements kept stay in their order.
\<close>

theorem filterElements_strict:
  "filterElements I elements = filter (spec_keeps_element I) elements \<and>
   (element \<in> set (filterElements I elements) \<longleftrightarrow>
      element \<in> set elements \<and> spec_keeps_element I element)"
proof -
  have "filterElements I elements = filter (spec_keeps_element I) elements"
    unfolding filterElements_def spec_keeps_element_def keeps_iff_spec ..
  then show ?thesis by simp
qed

theorem filterElements_strict_witness:
  "filterElements
     (page_crawler\<lparr>window := page_host\<lparr>matches := (\<lambda>element selector. element = page_div \<and> selector = ''div'')\<rparr>,
                   opt := default_options\<lparr>includeElements := Some ''div'', excludeElements := Some ''p''\<rparr>\<rparr>)
     [page_root, page_p1, page_div,
      ElementNode 4 [TextNode ''  '', ElementNode 5 [TextNode ''x'']],
      ElementNode 6 [TextNode ''  ''],
      ElementNode 7 [CommentNode ''note'', ElementNode 8 [TextNode ''x'']]]
   = [page_p1, page_div, ElementNode 4 [TextNode ''  '', ElementNode 5 [TextNode ''x'']]]"
proof -
  let ?I = "page_crawler\<lparr>window := page_host\<lparr>matches := (\<lambda>element selector. element = page_div \<and> selector = ''div'')\<rparr>,
                   opt := default_options\<lparr>includeElements := Some ''div'', excludeElements := Some ''p''\<rparr>\<rparr>"
  let ?els = "[page_root, page_p1, page_div,
      ElementNode 4 [TextNode ''  '', ElementNode 5 [TextNode ''x'']],
      ElementNode 6 [TextNode ''  ''],
      ElementNode 7 [CommentNode ''note'', ElementNode 8 [TextNode ''x'']]]"
  have "filter (spec_keeps_element ?I) ?els
          = [page_p1, page_div, ElementNode 4 [TextNode ''  '', ElementNode 5 [TextNode ''x'']]]"
    by code_simp
  with filterElements_strict[of ?I ?els] show ?thesis by simp
qed

lemma foldl_append_concat:
  "foldl (\<lambda>result x. result @ f x) acc xs = acc @ concat (map f xs)"
  by (induction xs arbitrary: acc) simp_all

lemma usePseudoElementEntries_spec:
  "usePseudoElementEntries I entries = spec_expand I entries"
proof (cases "usePseudoElement (opt I)")
  case PseudoNull
  then show ?thesis
    by (simp add: usePseudoElementEntries_def spec_expand_def pseudo_truthy_def
        configured_pseudo_names_def)
next
  case (PseudoString s)
  then show ?thesis
  proof (cases "s = ''''")
    case True
    with PseudoString show ?thesis
      by (simp add: usePseudoElementEntries_def spec_expand_def pseudo_truthy_def
          configured_pseudo_names_def)
  next
    case False
    with PseudoString show ?thesis
      using foldl_append_concat[of "\<lambda>entry. [entry] @ map (\<lambda>pseudo. (fst entry, Some (pseudo_name pseudo))) (split_commas '''' s)" "[]" entries]
      by (simp add: usePseudoElementEntries_def spec_expand_def pseudo_truthy_def
          configured_pseudo_names_def pseudo_name_def)
  qed
next
  case (PseudoArray ps)
  then show ?thesis
    using foldl_append_concat[of "\<lambda>entry. [entry] @ map (\<lambda>pseudo. (fst entry, Some (pseudo_name pseudo))) ps" "[]" entries]
    by (simp add: usePseudoElementEntries_def spec_expand_def pseudo_truthy_def
        configured_pseudo_names_def pseudo_name_def)
next
  case (PseudoFun f)
  define g where "g = (\<lambda>entry :: entry. [entry] @
      (case (case f (fst entry) (snd entry) of
               RetString s \<Rightarrow> RetArray (split_commas '''' s)
             | _ \<Rightarrow> f (fst entry) (snd entry)) of
         RetArray ps \<Rightarrow> map (\<lambda>pseudo. (fst entry, Some (pseudo_name pseudo))) ps
       | _ \<Rightarrow> []))"
  have code: "usePseudoElementEntries I entries = foldl (\<lambda>result entry. result @ g entry) [] entries"
    using PseudoFun by (simp add: usePseudoElementEntries_def pseudo_truthy_def Let_def g_def)
  have pointwise: "g entry = entry #
         map (\<lambda>name. (fst entry, Some (''::'' @ dropWhile (\<lambda>c. c = CHR '':'') name)))
             (configured_pseudo_names (usePseudoElement (opt I)) entry)" for entry
    by (cases "f (fst entry) (snd entry)")
       (simp_all add: g_def configured_pseudo_names_def PseudoFun pseudo_name_def)
  have "spec_expand I entries = concat (map g entries)"
    unfolding spec_expand_def pointwise ..
  with code show ?thesis
    by (simp add: foldl_append_concat)
qed

lemma usePseudoElementEntries_before_after:
  "usePseudoElementEntries (page_crawler\<lparr>opt := default_options\<lparr>usePseudoElement := PseudoString ''before,after''\<rparr>\<rparr>)
     [(page_p1, None)]
   = [(page_p1, None), (page_p1, Some ''::before''), (page_p1, Some ''::after'')]"
  by code_simp

text \<open>
  Claim C8. \<^verbatim>\<open>_usePseudoElementEntries\<close> of \<^verbatim>\<open>src/font-crawler.js\<close> does what the claim
  says (lemmas \<open>usePseudoElementEntries_spec\<close>, \<open>usePseudoElementEntries_before_after\<close>).
  \<^verbatim>\<open>_addPseudoEntries\<close> of the earlier revision in \<^verbatim>\<open>src/unnamed/part_000\<close> does not: its
  reducer returns nothing, so with \<open>before,after\<close> configured a single entry yields
  \<^verbatim>\<open>undefined\<close> instead of three entries, and a second entry raises.
\<close>

theorem addPseudoEntries_v2_loses_entries:
  "addPseudoEntries_v2 page_crawler_v2 [(page_p1, None)] = Inr None \<and>
   addPseudoEntries_v2 page_crawler_v2 [(page_p1, None), (page_p2, None)] = Inl TypeError"
  by code_simp

section \<open>The scheduler: one crawl in flight\<close>

lemma stampFrame_fields [simp]:
  "frames (stampFrame w st) = frames st"
  "delivered (stampFrame w st) = delivered st"
  "frameInterval (stampFrame w st) = frameInterval st"
  "lastHandle (stampFrame w st) = lastHandle st"
  by (simp_all add: stampFrame_def getTimestamp_def)

lemma getTimestamp_fields [simp]:
  "frames (snd (getTimestamp w st)) = frames st"
  "delivered (snd (getTimestamp w st)) = delivered st"
  "frameInterval (snd (getTimestamp w st)) = frameInterval st"
  "lastHandle (snd (getTimestamp w st)) = lastHandle st"
  by (simp_all add: getTimestamp_def)

lemma isPending_stamp [simp]:
  "isPending (stampFrame w st) = isPending st"
  "isPending (snd (getTimestamp w st)) = isPending st"
  by (simp_all add: isPending_def)

lemma clear_fields [simp]:
  "frameInterval (clear st) = None"
  "frameTimestamp (clear st) = None"
  "delivered (clear st) = delivered st"
  "lastHandle (clear st) = lastHandle st"
  "ticks (clear st) = ticks st"
  by (simp_all add: clear_def cancelAnimationFrame_def Let_def split: option.splits)

lemma clear_frames_empty [simp]: "frames st = [] \<Longrightarrow> frames (clear st) = []"
  by (simp add: clear_def cancelAnimationFrame_def Let_def split: option.splits)

lemma crawlAsyncRequestFrame_queued:
  assumes "frames st = []" "delivered st = []" "frameTimestamp st = None"
  shows "queued I cb (reduce_entries I es src) (crawlAsyncRequestFrame es src cb st)"
  using assms
  by (simp add: queued_def crawlAsyncRequestFrame_def requestAnimationFrame_def Let_def
      task_result_def task_callback_def is_crawl_task_def)

lemma crawlAsyncRequestFrame_remaining:
  assumes "frames st = []"
  shows "remaining I (crawlAsyncRequestFrame es src cb st) = length es + 2"
  using assms
  by (simp add: remaining_def crawlAsyncRequestFrame_def requestAnimationFrame_def Let_def task_work_def)

lemma crawlAsyncClear_in_flight:
  assumes "frames st = []" "delivered st = []"
  shows "in_flight I cb (Inr src) (crawlAsyncClear src cb st)"
    and "remaining I (crawlAsyncClear src cb st) \<le> 1"
  using assms
  by (cases cb; simp add: in_flight_def queued_def finished_def crawlAsyncClear_def
      requestAnimationFrame_def Let_def task_result_def task_callback_def is_crawl_task_def
      remaining_def task_work_def)+

lemma slice_callback:
    "frames st = [] \<Longrightarrow> delivered st = [] \<Longrightarrow> isPending st \<Longrightarrow>
     in_flight I cb (reduce_entries I es src) (snd (crawlAsyncCallback I es src cb st)) \<and>
     remaining I (snd (crawlAsyncCallback I es src cb st)) < length es + 2"
  and slice_recursion:
    "frames st = [] \<Longrightarrow> delivered st = [] \<Longrightarrow> isPending st \<Longrightarrow>
     in_flight I cb (reduce_entries I es src) (snd (crawlAsyncRecursion I es src cb st)) \<and>
     remaining I (snd (crawlAsyncRecursion I es src cb st)) \<le> length es + 2"
proof (induction I es src cb st and I es src cb st rule: crawlAsyncCallback_crawlAsyncRecursion.induct)
  case (1 I source callback st)
  from 1(2-) show ?case
    using crawlAsyncClear_in_flight[where st="stampFrame (window I) st" and I=I and cb=callback and src=source]
    by (simp add: crawlAsyncCallback.simps crawlAsyncRecursion.simps)
next
  case (2 I entry entries source callback st)
  show ?case
  proof (cases "handleEntry I entry source")
    case (Inl e)
    with 2(2-) show ?thesis
      by (simp add: crawlAsyncCallback.simps in_flight_def crashed_def remaining_def)
  next
    case (Inr source')
    from 2(1)[OF refl Inr] 2(2-) Inr show ?thesis
      by (simp add: crawlAsyncCallback.simps)
  qed
next
  case (3 I source callback st)
  then show ?case
    using crawlAsyncClear_in_flight[where st=st and I=I and cb=callback and src=source]
    by (simp add: crawlAsyncRecursion.simps)
next
  case (4 I entry entries source callback st)
  show ?case
  proof (cases "js_lt (frameDelay (frameTimestamp st) (fst (getTimestamp (window I) st)))
                  (js_div (asyncIntervalDuration (opt I)) 1000)")
    case True
    from 4(1)[OF refl refl refl refl True] 4(2-) True show ?thesis
      by (simp add: crawlAsyncRecursion.simps Let_def)
  next
    case False
    have q: "queued I callback (reduce_entries I (entry # entries) source)
               (crawlAsyncRequestFrame (entry # entries) source callback
                  (clear (snd (getTimestamp (window I) st))))"
      using 4(2-) by (intro crawlAsyncRequestFrame_queued) simp_all
    have r: "remaining I (crawlAsyncRequestFrame (entry # entries) source callback
                  (clear (snd (getTimestamp (window I) st)))) = length (entry # entries) + 2"
      using 4(2-) by (intro crawlAsyncRequestFrame_remaining) simp_all
    from q r False show ?thesis
      by (simp add: crawlAsyncRecursion.simps Let_def in_flight_def)
  qed
qed


lemma run_stage_queued:
  assumes "frames st = []" "delivered st = []" "frameTimestamp st = None" "frameInterval st = None"
  shows "queued I cb (reduce_entries I (entries_from I s) []) (run_stage I s cb st) \<and>
         remaining I (run_stage I s cb st) < length (entries_from I s) + 3 + stage_rank s"
  using assms
  by (cases s)
     (simp_all add: run_stage_def filterElementsAsync_def mapElementsAsEntriesAsync_def
        usePseudoElementEntriesAsync_def filterEntriesAsync_def crawlAsync_entries_def
        crawlAsyncRequestFrame_def requestAnimationFrame_def Let_def queued_def remaining_def
        task_result_def task_callback_def task_work_def is_crawl_task_def entries_from_def
        stage_rank_def getEntries_def)

lemma frame_step_in_flight:
  assumes "in_flight I cb R st"
  shows "in_flight I cb R (frame_step I st) \<and>
         (remaining I (frame_step I st) < remaining I st \<or> frames st = [])"
proof (cases "frames st = []")
  case True
  with assms show ?thesis by (simp add: frame_step_def)
next
  case False
  with assms have "queued I cb R st"
    by (auto simp: in_flight_def finished_def crashed_def)
  then obtain h t where ft: "frames st = [(h, t)]" and h: "h \<noteq> 0" and d: "delivered st = []"
    and res: "task_result I t = R" and tcb: "task_callback t = cb"
    and ts: "frameTimestamp st = None"
    and fi: "frameInterval st = (if is_crawl_task t then Some h else None)"
    by (auto simp: queued_def)
  let ?st = "st\<lparr>frames := []\<rparr>"
  have step: "frame_step I st = snd (run_task I t ?st)"
    by (simp add: frame_step_def ft)
  have rem: "remaining I st = task_work I t"
    by (simp add: remaining_def ft)
  show ?thesis
  proof (cases t)
    case (Delayed s cb')
    with tcb have cb': "cb' = cb" by (simp add: task_callback_def)
    from Delayed fi have "frameInterval ?st = None" by (simp add: is_crawl_task_def)
    with run_stage_queued[of ?st I cb s] d ts
    have "queued I cb (reduce_entries I (entries_from I s) []) (run_stage I s cb ?st) \<and>
          remaining I (run_stage I s cb ?st) < length (entries_from I s) + 3 + stage_rank s"
      by simp
    with Delayed cb' res show ?thesis
      by (simp add: step rem run_task_def in_flight_def task_result_def task_work_def)
  next
    case (CrawlTask es src cb')
    with tcb have cb': "cb' = cb" by (simp add: task_callback_def)
    from CrawlTask fi h have "isPending ?st" by (simp add: is_crawl_task_def isPending_def)
    with slice_callback[of ?st I cb es src] d
    have "in_flight I cb (reduce_entries I es src) (snd (crawlAsyncCallback I es src cb ?st)) \<and>
          remaining I (snd (crawlAsyncCallback I es src cb ?st)) < length es + 2"
      by simp
    with CrawlTask cb' res show ?thesis
      by (simp add: step rem run_task_def task_result_def task_work_def)
  next
    case (DoneTask m c)
    with tcb res fi ts d show ?thesis
      by (auto simp: step rem run_task_def task_result_def task_work_def task_callback_def
          in_flight_def finished_def is_crawl_task_def remaining_def[of I "_\<lparr>delivered := _\<rparr>"])
  qed
qed

lemma run_frames_in_flight:
  "in_flight I cb R st \<Longrightarrow> in_flight I cb R (run_frames I n st)"
  by (induction n arbitrary: st) (simp_all add: frame_step_in_flight)

lemma run_frames_drains:
  "in_flight I cb R st \<Longrightarrow> remaining I st \<le> n \<Longrightarrow> frames (run_frames I n st) = []"
proof (induction n arbitrary: st)
  case 0
  then show ?case by (simp add: remaining_def split: list.splits prod.splits)
       (auto simp: in_flight_def queued_def task_work_def split: task.splits)
next
  case (Suc n)
  from frame_step_in_flight[OF Suc.prems(1)]
  have inf: "in_flight I cb R (frame_step I st)"
    and dec: "remaining I (frame_step I st) < remaining I st \<or> frames st = []"
    by simp_all
  have "remaining I (frame_step I st) \<le> n"
  proof (cases "frames st = []")
    case True
    then show ?thesis by (simp add: frame_step_def remaining_def)
  next
    case False
    with dec Suc.prems(2) show ?thesis by simp
  qed
  with Suc.IH[OF inf] show ?case by simp
qed

lemma crawlAsync_idle:
  assumes "idle st"
  shows "fst (crawlAsync I cb st) = None"
    and "queued I cb (reduce_entries I (getEntries I) []) (snd (crawlAsync I cb st))"
  using assms
  by (simp_all add: idle_def crawlAsync_def isPending_def getEntriesAsync_def
      querySelectorElementsAsync_def requestAnimationFrame_def Let_def queued_def
      task_result_def task_callback_def is_crawl_task_def entries_from_def)

lemma in_flight_delivered:
  "in_flight I (Some c) R st \<Longrightarrow> (c', m) \<in> set (delivered st) \<Longrightarrow> c' = c \<and> R = Inr m"
  by (auto simp: in_flight_def queued_def finished_def crashed_def)

lemma in_flight_done:
  "in_flight I (Some c) (Inr m) st \<Longrightarrow> frames st = [] \<Longrightarrow>
   delivered st = [(c, m)] \<and> frameInterval st = None \<and> frameTimestamp st = None"
  by (auto simp: in_flight_def queued_def finished_def crashed_def)

lemma idle_fresh: "idle fresh"
  by (simp add: idle_def fresh_def)

lemma async_completes:
  assumes "idle st" and "reduce_entries I (getEntries I) [] = Inr m"
  shows "\<exists>n. delivered (run_frames I n (snd (crawlAsync I (Some c) st))) = [(c, m)] \<and>
             frames (run_frames I n (snd (crawlAsync I (Some c) st))) = [] \<and>
             \<not> isPending (run_frames I n (snd (crawlAsync I (Some c) st)))"
proof -
  let ?st1 = "snd (crawlAsync I (Some c) st)"
  let ?n = "remaining I ?st1"
  have q: "in_flight I (Some c) (Inr m) ?st1"
    using crawlAsync_idle(2)[OF assms(1), of I "Some c"] assms(2) by (simp add: in_flight_def)
  have fr: "frames (run_frames I ?n ?st1) = []"
    using q by (rule run_frames_drains) simp
  have "in_flight I (Some c) (Inr m) (run_frames I ?n ?st1)"
    using q by (rule run_frames_in_flight)
  from in_flight_done[OF this fr] fr show ?thesis
    by (auto simp: isPending_def)
qed

lemma async_delivers_only_result:
  assumes "idle st"
    and "(c', m) \<in> set (delivered (run_frames I n (snd (crawlAsync I (Some c) st))))"
  shows "c' = c \<and> reduce_entries I (getEntries I) [] = Inr m"
proof -
  have "in_flight I (Some c) (reduce_entries I (getEntries I) []) (snd (crawlAsync I (Some c) st))"
    using crawlAsync_idle(2)[OF assms(1), of I "Some c"] by (simp add: in_flight_def)
  then have "in_flight I (Some c) (reduce_entries I (getEntries I) [])
               (run_frames I n (snd (crawlAsync I (Some c) st)))"
    by (rule run_frames_in_flight)
  from in_flight_delivered[OF this assms(2)] show ?thesis .
qed

text \<open>
  Claim C1. Started on an idle instance, \<^verbatim>\<open>crawlAsync\<close> is accepted; whenever \<^verbatim>\<open>crawl\<close> on
  the same tree and options returns a map, the asynchronous crawl runs to completion after
  finitely many frames and its completion callback receives exactly that map (same keys
  in the same order, same token sequences), leaving no frame queued; and whatever the
  completion callback ever receives is the map \<^verbatim>\<open>crawl\<close> returns.
\<close>

theorem crawl_crawlAsync_same_map:
  assumes "idle st"
  shows "fst (crawlAsync I (Some c) st) = None \<and>
         (\<forall>m. crawl I st = Inr m \<longrightarrow>
            (\<exists>n. delivered (run_frames I n (snd (crawlAsync I (Some c) st))) = [(c, m)] \<and>
                 frames (run_frames I n (snd (crawlAsync I (Some c) st))) = [])) \<and>
         (\<forall>n c' m. (c', m) \<in> set (delivered (run_frames I n (snd (crawlAsync I (Some c) st)))) \<longrightarrow>
            c' = c \<and> crawl I st = Inr m)"
proof -
  have cr: "crawl I st = reduce_entries I (getEntries I) []"
    using assms by (simp add: crawl_def idle_def isPending_def)
  have a: "fst (crawlAsync I (Some c) st) = None"
    using assms by (rule crawlAsync_idle(1))
  have b: "\<exists>n. delivered (run_frames I n (snd (crawlAsync I (Some c) st))) = [(c, m)] \<and>
               frames (run_frames I n (snd (crawlAsync I (Some c) st))) = []"
    if "crawl I st = Inr m" for m
    using async_completes[OF assms, of I m c] that cr by auto
  have c: "c' = c \<and> crawl I st = Inr m"
    if "(c', m) \<in> set (delivered (run_frames I n (snd (crawlAsync I (Some c) st))))" for n c' m
    using async_delivers_only_result[OF assms that] cr by simp
  from a b c show ?thesis by blast
qed

theorem crawl_crawlAsync_same_map_witness:
  "\<exists>n. delivered (run_frames page_crawler n (snd (crawlAsync page_crawler (Some 7) fresh)))
         = [(7, [(''Arial'', [''700i'']), (''Georgia'', [''400''])])]"
proof -
  have i: "idle (fresh :: task state)" by (rule idle_fresh)
  have c: "crawl page_crawler fresh = Inr [(''Arial'', [''700i'']), (''Georgia'', [''400''])]"
    by code_simp
  from crawl_crawlAsync_same_map[OF i, of page_crawler 7] c show ?thesis by blast
qed

text \<open>
  While \<^verbatim>\<open>isPending\<close> holds, \<^verbatim>\<open>crawl\<close> and \<^verbatim>\<open>crawlAsync\<close> fail with the busy exception
  before doing anything else: the state after the rejected call is the state before it
  (still pending, the queued slice with its entries and map untouched).
\<close>

lemma busy_while_isPending:
  assumes "isPending st"
  shows "crawl I st = Inl Busy \<and> crawlAsync I cb st = (Some Busy, st) \<and>
         isPending (snd (crawlAsync I cb st))"
  using assms by (simp add: crawl_def crawlAsync_def)

lemma busy_while_isPending_example:
  "isPending (run_frames page_crawler 2 (snd (crawlAsync page_crawler (Some 7) fresh))) \<and>
   crawl page_crawler (run_frames page_crawler 2 (snd (crawlAsync page_crawler (Some 7) fresh)))
     = Inl Busy \<and>
   crawlAsync page_crawler (Some 8)
       (run_frames page_crawler 2 (snd (crawlAsync page_crawler (Some 7) fresh)))
     = (Some Busy, run_frames page_crawler 2 (snd (crawlAsync page_crawler (Some 7) fresh)))"
proof -
  have p: "isPending (run_frames page_crawler 2 (snd (crawlAsync page_crawler (Some 7) fresh)))"
    by code_simp
  from busy_while_isPending[OF p, of page_crawler "Some 8"] p show ?thesis by simp
qed

text \<open>
  Claim C3. \<^verbatim>\<open>_checkBusy\<close> rejects a call only while \<^verbatim>\<open>__frameInterval\<close> is set (lemma
  \<open>busy_while_isPending\<close>), and \<^verbatim>\<open>crawlAsync\<close> sets it only when the entries have been
  collected: the handles of the frames requested by \<^verbatim>\<open>_delayExec\<close> are not kept. While an
  asynchronous crawl is in flight and still collecting, \<^verbatim>\<open>isPending\<close> is false, \<^verbatim>\<open>crawl\<close>
  returns a map and a second \<^verbatim>\<open>crawlAsync\<close> is accepted and queued beside the first; on
  the example page the second crawl is then cancelled by the \<^verbatim>\<open>clear\<close> of the first one's
  last slice, and only the first completion callback is ever invoked.
\<close>

theorem collecting_crawl_not_busy:
  "\<not> isPending (snd (crawlAsync page_crawler (Some 7) fresh)) \<and>
   frames (snd (crawlAsync page_crawler (Some 7) fresh)) = [(1, Delayed QueryStage (Some 7))] \<and>
   crawl page_crawler (snd (crawlAsync page_crawler (Some 7) fresh))
     = Inr [(''Arial'', [''700i'']), (''Georgia'', [''400''])] \<and>
   fst (crawlAsync page_crawler (Some 8) (snd (crawlAsync page_crawler (Some 7) fresh))) = None \<and>
   frames (snd (crawlAsync page_crawler (Some 8) (snd (crawlAsync page_crawler (Some 7) fresh))))
     = [(1, Delayed QueryStage (Some 7)), (2, Delayed QueryStage (Some 8))] \<and>
   delivered (run_frames page_crawler 12
       (snd (crawlAsync page_crawler (Some 8) (snd (crawlAsync page_crawler (Some 7) fresh)))))
     = [(7, [(''Arial'', [''700i'']), (''Georgia'', [''400''])])] \<and>
   frames (run_frames page_crawler 12
       (snd (crawlAsync page_crawler (Some 8) (snd (crawlAsync page_crawler (Some 7) fresh))))) = []"
  by code_simp

lemma run_frames_empty: "frames st = [] \<Longrightarrow> run_frames I n st = st"
  by (induction n) (simp_all add: frame_step_def)

lemma clear_idem: "clear (clear st) = clear st"
  by (simp add: clear_def Let_def split: option.splits)

lemma clear_idle_noop:
  "frameInterval st = None \<Longrightarrow> frameTimestamp st = None \<Longrightarrow> clear st = st"
  by (cases st) (simp add: clear_def)

lemma in_flight_pending_clear:
  assumes "in_flight I cb R st" "isPending st"
  shows "idle (clear st)"
proof -
  from assms have "frames (clear st) = []"
    by (auto simp: in_flight_def queued_def finished_def crashed_def isPending_def clear_def
        cancelAnimationFrame_def Let_def split: if_splits option.splits)
  moreover from assms have "delivered st = []"
    by (auto simp: in_flight_def queued_def finished_def crashed_def isPending_def)
  ultimately show ?thesis by (simp add: idle_def)
qed

lemma in_flight_idle_clear:
  assumes "in_flight I cb R st" "\<not> isPending st"
  shows "clear st = st"
  using assms
  by (intro clear_idle_noop)
     (auto simp: in_flight_def queued_def finished_def crashed_def isPending_def split: if_splits)

lemma clear_not_pending: "\<not> isPending (clear st)"
  by (simp add: isPending_def)

lemma clear_cancels_handle:
  "frameInterval st = Some h \<Longrightarrow> h \<noteq> 0 \<Longrightarrow> h \<notin> fst ` set (frames (clear st))"
  by (auto simp: clear_def cancelAnimationFrame_def)

text \<open>
  In every state, \<^verbatim>\<open>clear\<close> removes the frame request whose handle is held in
  \<^verbatim>\<open>__frameInterval\<close>, leaves \<^verbatim>\<open>isPending\<close> false, lets the next \<^verbatim>\<open>crawlAsync\<close> be
  accepted, and is idempotent. For one asynchronous crawl started on an idle instance and
  seen after any number of frames: if \<^verbatim>\<open>isPending\<close> holds, \<^verbatim>\<open>clear\<close> leaves an idle
  instance with no frame queued and nothing delivered, and no later frame delivers
  anything; if \<^verbatim>\<open>isPending\<close> does not hold, \<^verbatim>\<open>clear\<close> changes nothing.
\<close>

lemma clear_while_isPending:
  assumes "idle st0" and "st = run_frames I k (snd (crawlAsync I cb st0))"
  shows "(isPending st \<longrightarrow>
            idle (clear st) \<and>
            (\<forall>n. run_frames I n (clear st) = clear st \<and> delivered (run_frames I n (clear st)) = []) \<and>
            fst (crawlAsync I cb' (clear st)) = None \<and>
            frames (snd (crawlAsync I cb' (clear st))) \<noteq> []) \<and>
         (\<not> isPending st \<longrightarrow> clear st = st) \<and>
         (\<forall>s :: task state. \<not> isPending (clear s) \<and> fst (crawlAsync I cb' (clear s)) = None \<and>
              clear (clear s) = clear s \<and>
              (\<forall>h. frameInterval s = Some h \<and> h \<noteq> 0 \<longrightarrow> h \<notin> fst ` set (frames (clear s))))"
proof -
  let ?R = "reduce_entries I (getEntries I) []"
  have inf: "in_flight I cb ?R st"
    unfolding assms(2)
    by (intro run_frames_in_flight) (simp add: in_flight_def crawlAsync_idle(2)[OF assms(1)])
  have a: "idle (clear st) \<and>
            (\<forall>n. run_frames I n (clear st) = clear st \<and> delivered (run_frames I n (clear st)) = []) \<and>
            fst (crawlAsync I cb' (clear st)) = None \<and>
            frames (snd (crawlAsync I cb' (clear st))) \<noteq> []" if "isPending st"
  proof -
    have i: "idle (clear st)" using inf that by (rule in_flight_pending_clear)
    then have "frames (clear st) = []" "delivered (clear st) = []" by (simp_all add: idle_def)
    then have r: "\<forall>n. run_frames I n (clear st) = clear st \<and> delivered (run_frames I n (clear st)) = []"
      by (simp add: run_frames_empty)
    from crawlAsync_idle[OF i, of I cb'] have
      "fst (crawlAsync I cb' (clear st)) = None" "frames (snd (crawlAsync I cb' (clear st))) \<noteq> []"
      by (auto simp: queued_def)
    with i r show ?thesis by blast
  qed
  have b: "clear st = st" if "\<not> isPending st"
    using inf that by (rule in_flight_idle_clear)
  have c: "\<not> isPending (clear s) \<and> fst (crawlAsync I cb' (clear s)) = None \<and>
              clear (clear s) = clear s \<and>
              (\<forall>h. frameInterval s = Some h \<and> h \<noteq> 0 \<longrightarrow> h \<notin> fst ` set (frames (clear s)))"
    for s :: "task state"
    using clear_not_pending[of s] clear_idem[of s] clear_cancels_handle[of s]
    by (auto simp: crawlAsync_def)
  from a b c show ?thesis by blast
qed

lemma clear_while_isPending_example:
  "isPending (run_frames page_crawler 2 (snd (crawlAsync page_crawler (Some 7) fresh))) \<and>
   idle (clear (run_frames page_crawler 2 (snd (crawlAsync page_crawler (Some 7) fresh)))) \<and>
   delivered (run_frames page_crawler 5
       (clear (run_frames page_crawler 2 (snd (crawlAsync page_crawler (Some 7) fresh))))) = [] \<and>
   fst (crawlAsync page_crawler (Some 8)
       (clear (run_frames page_crawler 2 (snd (crawlAsync page_crawler (Some 7) fresh))))) = None"
proof -
  have p: "isPending (run_frames page_crawler 2 (snd (crawlAsync page_crawler (Some 7) fresh)))"
    by code_simp
  have i: "idle (fresh :: task state)" by (rule idle_fresh)
  from clear_while_isPending[OF i refl, of page_crawler 2 "Some 7" "Some 8"] p
  show ?thesis by blast
qed

text \<open>
  Claim C4. \<^verbatim>\<open>clear\<close> cancels the one frame whose handle is held in
  \<^verbatim>\<open>__frameInterval\<close> (lemma \<open>clear_while_isPending\<close>). While an asynchronous crawl is in
  flight and still collecting its entries that field is not set, so \<^verbatim>\<open>clear\<close> leaves the
  queued frame where it is: on the example page, \<^verbatim>\<open>clear\<close> called right after
  \<^verbatim>\<open>crawlAsync\<close>, or one frame later, cancels nothing, and the completion callback is
  invoked with the full map.
\<close>

theorem clear_misses_collecting_crawl:
  "\<not> isPending (snd (crawlAsync page_crawler (Some 7) fresh)) \<and>
   frames (snd (crawlAsync page_crawler (Some 7) fresh)) = [(1, Delayed QueryStage (Some 7))] \<and>
   frames (clear (snd (crawlAsync page_crawler (Some 7) fresh)))
     = [(1, Delayed QueryStage (Some 7))] \<and>
   delivered (run_frames page_crawler 4 (clear (snd (crawlAsync page_crawler (Some 7) fresh))))
     = [(7, [(''Arial'', [''700i'']), (''Georgia'', [''400''])])] \<and>
   frames (clear (run_frames page_crawler 1 (snd (crawlAsync page_crawler (Some 7) fresh))))
     = [(2, Delayed (FilterElementsStage [page_root, page_p1, page_p2, page_div]) (Some 7))] \<and>
   delivered (run_frames page_crawler 3
       (clear (run_frames page_crawler 1 (snd (crawlAsync page_crawler (Some 7) fresh)))))
     = [(7, [(''Arial'', [''700i'']), (''Georgia'', [''400''])])]"
  by code_simp

lemma crawlAsyncClear_delivered [simp]:
  "delivered (crawlAsyncClear src cb st) = delivered st"
  by (cases cb) (simp_all add: crawlAsyncClear_def requestAnimationFrame_def Let_def)

lemma crawlAsyncRequestFrame_delivered [simp]:
  "delivered (crawlAsyncRequestFrame es src cb st) = delivered st"
  by (simp add: crawlAsyncRequestFrame_def requestAnimationFrame_def Let_def)

lemma slice_keeps_delivered:
    "delivered (snd (crawlAsyncCallback I es src cb st)) = delivered st"
  and recursion_keeps_delivered:
    "delivered (snd (crawlAsyncRecursion I es src cb st)) = delivered st"
proof (induction I es src cb st and I es src cb st rule: crawlAsyncCallback_crawlAsyncRecursion.induct)
  case (1 I source callback st)
  then show ?case by (simp add: crawlAsyncCallback.simps)
next
  case (2 I entry entries source callback st)
  then show ?case
    by (cases "handleEntry I entry source") (simp_all add: crawlAsyncCallback.simps)
next
  case (3 I source callback st)
  then show ?case by (simp add: crawlAsyncRecursion.simps)
next
  case (4 I entry entries source callback st)
  then show ?case
    by (cases "js_lt (frameDelay (frameTimestamp st) (fst (getTimestamp (window I) st)))
                  (js_div (asyncIntervalDuration (opt I)) 1000)")
       (simp_all add: crawlAsyncRecursion.simps Let_def)
qed

text \<open>
  Claim C5, as amended. In the time-budgeted scheduler of \<^verbatim>\<open>src/font-crawler.js\<close> a
  processing slice never invokes the completion callback; on an empty queue it first
  clears the instance (not pending any more) and then hands the completion callback, bound
  to the map, to \<^verbatim>\<open>requestAnimationFrame\<close>; that frame only delivers the map and queues
  nothing. In the count-budgeted revision of \<^verbatim>\<open>src/unnamed/part_000\<close>, which has no pending
  state, the slice that empties the queue invokes the completion callback itself, after
  its last entry, and queues nothing.
\<close>

theorem completion_dispatch:
  "delivered (snd (crawlAsyncCallback I es src cb st)) = delivered st \<and>
   crawlAsyncRecursion I [] src (Some c) st
     = (None, snd (requestAnimationFrame (DoneTask src c) (clear st))) \<and>
   \<not> isPending (snd (crawlAsyncRecursion I [] src (Some c) st)) \<and>
   run_task I (DoneTask src c) st = (None, st\<lparr>delivered := delivered st @ [(c, src)]\<rparr>) \<and>
   (crawl_slice_v1 J 0 count es1 src1 = Inr ([], src1') \<longrightarrow>
      run_task_v1 J (RecursiveTask es1 count src1 (Some c)) st1
        = (None, st1\<lparr>delivered := delivered st1 @ [(c, src1')]\<rparr>))"
  by (simp add: slice_keeps_delivered crawlAsyncRecursion.simps crawlAsyncClear_def
      run_task_def run_task_v1_def isPending_def requestAnimationFrame_def Let_def)

theorem completion_dispatch_witness:
  "run_task_v1 page_crawler_v1 (RecursiveTask [(page_p1, None)] (JNum 1000) [] (Some 7)) fresh
     = (None, fresh\<lparr>delivered := [(7, [(''Arial'', [''700i''])])]\<rparr>)"
proof -
  have s: "crawl_slice_v1 page_crawler_v1 0 (JNum 1000) [(page_p1, None)] []
             = Inr ([], [(''Arial'', [''700i''])])"
    by code_simp
  have d: "delivered (fresh :: task_v1 state) = []" by (simp add: fresh_def)
  from completion_dispatch[of _ _ _ _ _ _ page_crawler_v1 "JNum 1000" "[(page_p1, None)]" "[]"
        "[(''Arial'', [''700i''])]" fresh] s d
  show ?thesis by simp
qed

text \<open>
  The claim as stated fails on the count-budgeted revision: on the example page the one
  frame that processes the two entries also delivers the map to the completion callback.
\<close>

theorem count_revision_calls_back_in_slice:
  "frames (crawlAsync_v1 page_crawler_v1 (Some 7) fresh)
     = [(1, RecursiveTask [(page_p1, None), (page_p2, None)] (JNum 1000) [] (Some 7))] \<and>
   delivered (crawlAsync_v1 page_crawler_v1 (Some 7) fresh) = [] \<and>
   delivered (frame_step_v1 page_crawler_v1 (crawlAsync_v1 page_crawler_v1 (Some 7) fresh))
     = [(7, [(''Arial'', [''700i'']), (''Georgia'', [''400''])])] \<and>
   frames (frame_step_v1 page_crawler_v1 (crawlAsync_v1 page_crawler_v1 (Some 7) fresh)) = []"
  by code_simp

lemma crawlAsyncCallback_empty:
  "crawlAsyncCallback I [] source (Some c) st
     = (None, snd (requestAnimationFrame (DoneTask source c) (clear (stampFrame (window I) st))))"
  by (simp add: crawlAsyncCallback.simps crawlAsyncRecursion.simps crawlAsyncClear_def)

lemma empty_pipeline_completes:
  assumes "idle st" and "getEntries I = []"
  shows "\<exists>n. delivered (run_frames I n (snd (crawlAsync I (Some c) st))) = [(c, [])] \<and>
             frames (run_frames I n (snd (crawlAsync I (Some c) st))) = [] \<and>
             \<not> isPending (run_frames I n (snd (crawlAsync I (Some c) st)))"
  using async_completes[OF assms(1), of I "[]" c] assms(2) by simp

text \<open>
  Claim C10. \<^verbatim>\<open>_crawlAsyncCallback\<close> of \<^verbatim>\<open>src/font-crawler.js\<close> looks at the length of
  the queue before it shifts, and a crawl with no entries completes with the empty map
  (lemmas \<open>crawlAsyncCallback_empty\<close>, \<open>empty_pipeline_completes\<close>). The earlier revision in
  \<^verbatim>\<open>src/unnamed/part_000\<close> shifts unconditionally: on an empty queue it passes
  \<^verbatim>\<open>undefined\<close> to \<^verbatim>\<open>_handleEntry\<close>, which raises; the frame ends there with the instance
  still pending, nothing queued and the completion callback never invoked.
\<close>

theorem empty_queue_slice_raises_v2:
  "crawlAsyncCallback_v2 I [] source callback st = (Some TypeError, stampFrame (window_v2 I) st) \<and>
   frames (stampFrame (window_v2 I) st) = frames st \<and>
   delivered (stampFrame (window_v2 I) st) = delivered st \<and>
   isPending (stampFrame (window_v2 I) st) = isPending st"
  by (simp add: crawlAsyncCallback_v2.simps handleEntry_v2_def)

text \<open>
  Claim C9, as amended. The count budget falls back: an entry count that is zero, negative
  or not a number is replaced by the default 1000, and the crawl is the crawl configured
  with 1000. The interval budget has no fallback: with an interval that is not a number,
  or is zero or negative while the clock does not run backwards, no error is raised and
  every slice yields to the next frame after a single entry.
\<close>

theorem budget_fallback:
  "(js_falsy n \<or> js_lt n (JNum 0) \<longrightarrow>
      crawlAsync_v1 (J\<lparr>opt_v1 := (opt_v1 J)\<lparr>asyncMax_v1 := n\<rparr>\<rparr>) cb st'
        = crawlAsync_v1 (J\<lparr>opt_v1 := (opt_v1 J)\<lparr>asyncMax_v1 := JNum 1000\<rparr>\<rparr>) cb st') \<and>
   (asyncIntervalDuration (opt I) = JNaN \<or>
    (\<exists>d. asyncIntervalDuration (opt I) = JNum d \<and> d \<le> 0 \<and>
         (\<forall>s. frameTimestamp st = Some s \<longrightarrow> s \<le> fst (getTimestamp (window I) st))) \<longrightarrow>
      crawlAsyncRecursion I (e # es) src cb st
        = (None, crawlAsyncRequestFrame (e # es) src cb (clear (snd (getTimestamp (window I) st)))))"
proof -
  have a: "crawlAsync_v1 (J\<lparr>opt_v1 := (opt_v1 J)\<lparr>asyncMax_v1 := n\<rparr>\<rparr>) cb st'
        = crawlAsync_v1 (J\<lparr>opt_v1 := (opt_v1 J)\<lparr>asyncMax_v1 := JNum 1000\<rparr>\<rparr>) cb st'"
    if "js_falsy n \<or> js_lt n (JNum 0)"
    using that
    by (simp add: crawlAsync_v1_def Let_def defaults_asyncMax_def elementWithPseudoEntries_v1_def)
  have b: "\<not> js_lt (frameDelay (frameTimestamp st) (fst (getTimestamp (window I) st)))
                  (js_div (asyncIntervalDuration (opt I)) 1000)"
    if "asyncIntervalDuration (opt I) = JNaN \<or>
    (\<exists>d. asyncIntervalDuration (opt I) = JNum d \<and> d \<le> 0 \<and>
         (\<forall>s. frameTimestamp st = Some s \<longrightarrow> s \<le> fst (getTimestamp (window I) st)))"
  proof (cases "frameTimestamp st")
    case None
    then show ?thesis by (simp add: frameDelay_def)
  next
    case (Some s)
    from that show ?thesis
    proof
      assume "asyncIntervalDuration (opt I) = JNaN"
      then show ?thesis by (simp add: frameDelay_def Some)
    next
      assume "\<exists>d. asyncIntervalDuration (opt I) = JNum d \<and> d \<le> 0 \<and>
         (\<forall>s. frameTimestamp st = Some s \<longrightarrow> s \<le> fst (getTimestamp (window I) st))"
      then obtain d where d: "asyncIntervalDuration (opt I) = JNum d" "d \<le> 0"
        and mono: "s \<le> fst (getTimestamp (window I) st)"
        using Some by auto
      have "d / 1000 \<le> 0" using d(2) by (simp add: divide_le_0_iff)
      with mono have "\<not> fst (getTimestamp (window I) st) - s < d / 1000" by linarith
      then show ?thesis by (simp add: frameDelay_def Some d(1))
    qed
  qed
  from a b show ?thesis
    by (auto simp: crawlAsyncRecursion.simps Let_def)
qed

theorem budget_fallback_witness:
  "crawlAsync_v1 (page_crawler_v1\<lparr>opt_v1 := (opt_v1 page_crawler_v1)\<lparr>asyncMax_v1 := JNum (- 5)\<rparr>\<rparr>)
       (Some 7) fresh
     = crawlAsync_v1 (page_crawler_v1\<lparr>opt_v1 := (opt_v1 page_crawler_v1)\<lparr>asyncMax_v1 := JNum 1000\<rparr>\<rparr>)
       (Some 7) fresh \<and>
   crawlAsyncRecursion (page_crawler\<lparr>opt := default_options\<lparr>asyncIntervalDuration := JNaN\<rparr>\<rparr>)
       [(page_p2, None)] [] (Some 7) fresh
     = (None, crawlAsyncRequestFrame [(page_p2, None)] [] (Some 7)
                (clear (snd (getTimestamp page_host (fresh :: task state)))))"
proof -
  have n: "js_falsy (JNum (- 5)) \<or> js_lt (JNum (- 5)) (JNum 0)" by simp
  have d: "asyncIntervalDuration
             (opt (page_crawler\<lparr>opt := default_options\<lparr>asyncIntervalDuration := JNaN\<rparr>\<rparr>)) = JNaN"
    by simp
  have w: "window (page_crawler\<lparr>opt := default_options\<lparr>asyncIntervalDuration := JNaN\<rparr>\<rparr>) = page_host"
    by (simp add: page_crawler_def)
  from budget_fallback[where n="JNum (- 5)" and J=page_crawler_v1 and cb="Some 7" and st'=fresh
         and I="page_crawler\<lparr>opt := default_options\<lparr>asyncIntervalDuration := JNaN\<rparr>\<rparr>"
         and st=fresh and e="(page_p2, None)" and es="[]" and src="[]"] n d w
  show ?thesis by simp
qed

text \<open>
  The claim as stated fails on the interval budget: with the clock standing still, the
  crawler configured with interval 0 has handled one entry when its first slice ends and
  queues the rest, while the crawler with the default 16 has handled both.
\<close>

theorem zero_interval_differs_from_default:
  "frames (run_frames (page_crawler\<lparr>opt := default_options\<lparr>asyncIntervalDuration := JNum 0\<rparr>\<rparr>) 3
             (snd (crawlAsync (page_crawler\<lparr>opt := default_options\<lparr>asyncIntervalDuration := JNum 0\<rparr>\<rparr>)
                     (Some 7) fresh)))
     = [(4, CrawlTask [(page_p2, None)] [(''Arial'', [''700i''])] (Some 7))] \<and>
   frames (run_frames page_crawler 3 (snd (crawlAsync page_crawler (Some 7) fresh)))
     = [(4, DoneTask [(''Arial'', [''700i'']), (''Georgia'', [''400''])] 7)] \<and>
   asyncIntervalDuration (opt page_crawler) = JNum 16"
  by code_simp

end
